theory Spec2Isabelle
  imports Main "HOL-Library.Sublist"
begin

section \<open>Python values, text and exceptions\<close>

text \<open>
  The program is \<^verbatim>\<open>src/pve_switch/__init__.py\<close>. Python text is a \<open>string\<close> holding
  the UTF-8 bytes of the text, so a pictograph of a source literal is the list of its
  bytes. Exceptions are values: every exception carries the text that \<^verbatim>\<open>str(e)\<close>
  gives. Only the classes the program tells apart are kept apart: \<^verbatim>\<open>ResourceException\<close>
  (proxmoxer: the API answered with an error status), \<^verbatim>\<open>TelegramBadRequest\<close> (aiogram),
  and every other subclass of \<^verbatim>\<open>Exception\<close> (transport errors of the HTTP client,
  \<^verbatim>\<open>OSError\<close> of the file system, other Telegram errors).
\<close>

datatype exn = ResourceException string | TelegramBadRequest string | OtherException string

fun exn_str :: "exn \<Rightarrow> string" where
  "exn_str (ResourceException m) = m"
| "exn_str (TelegramBadRequest m) = m"
| "exn_str (OtherException m) = m"

datatype pyval = PyStr string | PyBool bool

text \<open>\<^verbatim>\<open>str(b)\<close> for a bool, and the decimal text of an int inside an f-string.\<close>

definition str_bool :: "bool \<Rightarrow> string" where
  "str_bool b = (if b then ''True'' else ''False'')"

fun str_nat :: "nat \<Rightarrow> string" where
  "str_nat n = (if n < 10 then [char_of (48 + n)]
                else str_nat (n div 10) @ [char_of (48 + n mod 10)])"

declare str_nat.simps [simp del]

definition str_int :: "int \<Rightarrow> string" where
  "str_int i = (if i < 0 then CHR ''-'' # str_nat (nat (- i)) else str_nat (nat i))"

text \<open>
  \<^verbatim>\<open>str.strip()\<close> removes leading and trailing white space. Python's white space is the
  code points 9-13, 28-32, U+0085, U+00A0, U+1680, U+2000-U+200A, U+2028, U+2029, U+202F,
  U+205F and U+3000, here in UTF-8.
\<close>

definition py_whitespace :: "string list" where
  "py_whitespace =
    [[CHR 0x09], [CHR 0x0A], [CHR 0x0B], [CHR 0x0C], [CHR 0x0D],
     [CHR 0x1C], [CHR 0x1D], [CHR 0x1E], [CHR 0x1F], [CHR 0x20],
     [CHR 0xC2, CHR 0x85], [CHR 0xC2, CHR 0xA0], [CHR 0xE1, CHR 0x9A, CHR 0x80],
     [CHR 0xE2, CHR 0x80, CHR 0x80], [CHR 0xE2, CHR 0x80, CHR 0x81],
     [CHR 0xE2, CHR 0x80, CHR 0x82], [CHR 0xE2, CHR 0x80, CHR 0x83],
     [CHR 0xE2, CHR 0x80, CHR 0x84], [CHR 0xE2, CHR 0x80, CHR 0x85],
     [CHR 0xE2, CHR 0x80, CHR 0x86], [CHR 0xE2, CHR 0x80, CHR 0x87],
     [CHR 0xE2, CHR 0x80, CHR 0x88], [CHR 0xE2, CHR 0x80, CHR 0x89],
     [CHR 0xE2, CHR 0x80, CHR 0x8A], [CHR 0xE2, CHR 0x80, CHR 0xA8],
     [CHR 0xE2, CHR 0x80, CHR 0xA9], [CHR 0xE2, CHR 0x80, CHR 0xAF],
     [CHR 0xE2, CHR 0x81, CHR 0x9F], [CHR 0xE3, CHR 0x80, CHR 0x80]]"

function drop_leading :: "string list \<Rightarrow> string \<Rightarrow> string" where
  "drop_leading ws s =
     (case find (\<lambda>w. w \<noteq> [] \<and> prefix w s) ws of
        None \<Rightarrow> s
      | Some w \<Rightarrow> drop_leading ws (drop (length w) s))"
  by pat_completeness auto
termination
  by (relation "measure (\<lambda>(ws, s). length s)") (auto simp: find_Some_iff prefix_def)

declare drop_leading.simps [simp del]

definition lstrip :: "string \<Rightarrow> string" where
  "lstrip s = drop_leading py_whitespace s"

definition rstrip :: "string \<Rightarrow> string" where
  "rstrip s = rev (drop_leading (map rev py_whitespace) (rev s))"

definition strip :: "string \<Rightarrow> string" where
  "strip s = rstrip (lstrip s)"

section \<open>Configuration, logging, the lock file\<close>

type_synonym vmid = int

record config =
  proxmox_host :: string
  proxmox_user :: string
  proxmox_token_name :: string
  proxmox_token_value :: string
  proxmox_node :: string
  vm_id_linux :: vmid
  vm_id_win :: vmid
  bot_token :: string
  bot_chat_id :: int
  lock_file_path :: string

datatype level = INFO | WARNING | ERROR | CRITICAL

text \<open>
  The file system, as far as the lock store sees it: the text of each existing path,
  and for each path the exception (if any) that opening it for reading raises
  (\<open>read_fault\<close>), that opening it for writing raises (\<open>write_fault\<close>), and that writing
  to it or closing it raises once it is open (\<open>flush_fault\<close>). Opening a path with
  \<^verbatim>\<open>open(path, "w")\<close> empties the file: when the opening raises the old text stays,
  when the write or the close raises the file is left empty, and otherwise the file
  holds the new text.
\<close>

record fs =
  files :: "string \<rightharpoonup> string"
  read_fault :: "string \<Rightarrow> exn option"
  write_fault :: "string \<Rightarrow> exn option"
  flush_fault :: "string \<Rightarrow> exn option"

definition path_exists :: "fs \<Rightarrow> string \<Rightarrow> bool" where
  "path_exists d p = (files d p \<noteq> None)"

definition read_text :: "fs \<Rightarrow> string \<Rightarrow> exn + string" where
  "read_text d p =
     (case read_fault d p of
        Some e \<Rightarrow> Inl e
      | None \<Rightarrow> (case files d p of
                   None \<Rightarrow> Inl (OtherException ''No such file or directory'')
                 | Some t \<Rightarrow> Inr t))"

definition write_text :: "fs \<Rightarrow> string \<Rightarrow> string \<Rightarrow> (exn + unit) \<times> fs" where
  "write_text d p t =
     (case write_fault d p of
        Some e \<Rightarrow> (Inl e, d)
      | None \<Rightarrow>
          (case flush_fault d p of
             Some e \<Rightarrow> (Inl e, d\<lparr>files := (files d)(p \<mapsto> [])\<rparr>)
           | None \<Rightarrow> (Inr (), d\<lparr>files := (files d)(p \<mapsto> t)\<rparr>)))"

section \<open>The collaborators: control plane, progress sink, clock\<close>

text \<open>
  The calls that leave the process. \<open>StatusCurrentGet\<close>, \<open>ShutdownPost\<close>, \<open>StopPost\<close> and
  \<open>StartPost\<close> are the four requests to the Proxmox API (node, VM id); \<open>SendMessage\<close>
  (chat id, text) and \<open>EditMessageText\<close> (text, chat id, message id) go to the bot, always
  with \<^verbatim>\<open>parse_mode="HTML"\<close>; \<open>Sleep\<close> is \<^verbatim>\<open>asyncio.sleep\<close>.
\<close>

datatype call =
    StatusCurrentGet string vmid
  | ShutdownPost string vmid
  | StopPost string vmid
  | StartPost string vmid
  | SendMessage int string
  | EditMessageText string int int
  | Sleep nat

text \<open>
  The collaborators are a parameter: any deterministic machine over a world \<open>'w\<close> of its
  own. Each call may raise. A status query returns the dict of the API's answer; sending
  a message returns the new message, of which the program reads only \<^verbatim>\<open>message_id\<close>.
\<close>

record 'w env =
  status_current_get :: "string \<Rightarrow> vmid \<Rightarrow> 'w \<Rightarrow> (exn + (string \<rightharpoonup> string)) \<times> 'w"
  status_shutdown_post :: "string \<Rightarrow> vmid \<Rightarrow> 'w \<Rightarrow> (exn + unit) \<times> 'w"
  status_stop_post :: "string \<Rightarrow> vmid \<Rightarrow> 'w \<Rightarrow> (exn + unit) \<times> 'w"
  status_start_post :: "string \<Rightarrow> vmid \<Rightarrow> 'w \<Rightarrow> (exn + unit) \<times> 'w"
  send_message :: "int \<Rightarrow> string \<Rightarrow> 'w \<Rightarrow> (exn + int) \<times> 'w"
  edit_message_text :: "string \<Rightarrow> int \<Rightarrow> int \<Rightarrow> 'w \<Rightarrow> (exn + unit) \<times> 'w"
  asyncio_sleep :: "nat \<Rightarrow> 'w \<Rightarrow> 'w"

section \<open>The state of a running process\<close>

text \<open>
  \<open>manual_lock\<close> is \<^verbatim>\<open>self._manual_lock\<close>, \<open>op_lock\<close> is \<^verbatim>\<open>self._op_lock.locked()\<close>.
  \<open>trace\<close> lists the calls made to the collaborators, oldest first, and \<open>logs\<close> the
  records given to the logger.
\<close>

record 'w state =
  manual_lock :: bool
  op_lock :: bool
  disk :: fs
  world :: 'w
  trace :: "call list"
  logs :: "(level \<times> string) list"

definition logger :: "level \<Rightarrow> string \<Rightarrow> 'w state \<Rightarrow> 'w state" where
  "logger lv m s = s\<lparr>logs := logs s @ [(lv, m)]\<rparr>"

definition invoke ::
  "call \<Rightarrow> ('w \<Rightarrow> 'r \<times> 'w) \<Rightarrow> 'w state \<Rightarrow> 'r \<times> 'w state" where
  "invoke c f s =
     (case f (world s) of (r, w) \<Rightarrow> (r, s\<lparr>world := w, trace := trace s @ [c]\<rparr>))"

section \<open>Lock store\<close>

definition load_lock_state :: "config \<Rightarrow> 'w state \<Rightarrow> bool \<times> 'w state" where
  "load_lock_state cfg s =
     (if path_exists (disk s) (lock_file_path cfg) then
        (case read_text (disk s) (lock_file_path cfg) of
           Inr text \<Rightarrow>
             (let content = strip text;
                  is_locked = (content = ''LOCKED'')
              in if is_locked
                 then (is_locked,
                       logger INFO (''Restored LOCKED state from '' @ lock_file_path cfg) s)
                 else (is_locked, s))
         | Inl e \<Rightarrow> (False, logger ERROR (''Failed to load lock state: '' @ exn_str e) s))
      else (False, s))"

text \<open>
  \<^verbatim>\<open>VMController.__init__\<close>: a fresh process over what is on disk. The guard is free and
  the lock flag is what \<open>load_lock_state\<close> reads.
\<close>

definition new_controller :: "config \<Rightarrow> fs \<Rightarrow> 'w \<Rightarrow> 'w state" where
  "new_controller cfg d w =
     (case load_lock_state cfg
             \<lparr>manual_lock = False, op_lock = False, disk = d, world = w,
              trace = [], logs = []\<rparr> of
        (b, s) \<Rightarrow> s\<lparr>manual_lock := b\<rparr>)"

definition is_locked :: "'w state \<Rightarrow> bool" where
  "is_locked s = manual_lock s"

text \<open>The body of the \<^verbatim>\<open>try\<close> of \<^verbatim>\<open>set_lock\<close>: open the file for writing, write the word.\<close>

definition save_lock_file :: "config \<Rightarrow> bool \<Rightarrow> 'w state \<Rightarrow> (exn + unit) \<times> 'w state" where
  "save_lock_file cfg locked s =
     (case write_text (disk s) (lock_file_path cfg)
             (if locked then ''LOCKED'' else ''UNLOCKED'') of
        (r, d) \<Rightarrow> (r, s\<lparr>disk := d\<rparr>))"

definition set_lock :: "config \<Rightarrow> bool \<Rightarrow> 'w state \<Rightarrow> 'w state" where
  "set_lock cfg locked s =
     (case save_lock_file cfg locked (s\<lparr>manual_lock := locked\<rparr>) of
        (Inr u, s1) \<Rightarrow> s1
      | (Inl e, s1) \<Rightarrow> logger ERROR (''Failed to save lock state: '' @ exn_str e) s1)"

section \<open>Status reader\<close>

definition get_vm_status :: "'w env \<Rightarrow> config \<Rightarrow> vmid \<Rightarrow> 'w state \<Rightarrow> string \<times> 'w state" where
  "get_vm_status env cfg vmid s =
     (case invoke (StatusCurrentGet (proxmox_node cfg) vmid)
             (status_current_get env (proxmox_node cfg) vmid) s of
        (Inr status_data, s1) \<Rightarrow>
          (case status_data ''status'' of Some v \<Rightarrow> v | None \<Rightarrow> ''unknown'', s1)
      | (Inl e, s1) \<Rightarrow>
          (''error'',
           logger ERROR (''Failed to get status for VM '' @ str_int vmid @ '': '' @ exn_str e) s1))"

definition get_full_status :: "'w env \<Rightarrow> config \<Rightarrow> 'w state \<Rightarrow> (string \<rightharpoonup> pyval) \<times> 'w state" where
  "get_full_status env cfg s =
     (case get_vm_status env cfg (vm_id_linux cfg) s of
        (linux, s1) \<Rightarrow>
          (case get_vm_status env cfg (vm_id_win cfg) s1 of
             (windows, s2) \<Rightarrow>
               ([''linux'' \<mapsto> PyStr linux,
                 ''windows'' \<mapsto> PyStr windows,
                 ''locked'' \<mapsto> PyStr (str_bool (is_locked s2))], s2)))"

section \<open>Shutdown waiter\<close>

definition sleep :: "'w env \<Rightarrow> nat \<Rightarrow> 'w state \<Rightarrow> 'w state" where
  "sleep env n s = s\<lparr>world := asyncio_sleep env n (world s), trace := trace s @ [Sleep n]\<rparr>"

text \<open>\<^verbatim>\<open>for _ in range(timeout)\<close>: the loop runs \<open>timeout\<close> times at most.\<close>

primrec wait_for_shutdown ::
  "'w env \<Rightarrow> config \<Rightarrow> vmid \<Rightarrow> nat \<Rightarrow> 'w state \<Rightarrow> bool \<times> 'w state" where
  "wait_for_shutdown env cfg vmid 0 s = (False, s)"
| "wait_for_shutdown env cfg vmid (Suc timeout) s =
     (case get_vm_status env cfg vmid s of
        (st, s1) \<Rightarrow>
          if st = ''stopped'' then (True, s1)
          else wait_for_shutdown env cfg vmid timeout (sleep env 1 s1))"

section \<open>Switch orchestrator\<close>

subsection \<open>The texts\<close>

definition glyph_info :: string where
  "glyph_info = [CHR 0xE2, CHR 0x84, CHR 0xB9, CHR 0xEF, CHR 0xB8, CHR 0x8F]"

definition glyph_cycle :: string where
  "glyph_cycle = [CHR 0xF0, CHR 0x9F, CHR 0x94, CHR 0x84]"

definition glyph_hourglass :: string where
  "glyph_hourglass = [CHR 0xE2, CHR 0x8F, CHR 0xB3]"

definition glyph_stop_sign :: string where
  "glyph_stop_sign = [CHR 0xF0, CHR 0x9F, CHR 0x9B, CHR 0x91]"

definition glyph_warning :: string where
  "glyph_warning = [CHR 0xE2, CHR 0x9A, CHR 0xA0, CHR 0xEF, CHR 0xB8, CHR 0x8F]"

definition glyph_cross :: string where
  "glyph_cross = [CHR 0xE2, CHR 0x9D, CHR 0x8C]"

definition glyph_rocket :: string where
  "glyph_rocket = [CHR 0xF0, CHR 0x9F, CHR 0x9A, CHR 0x80]"

definition glyph_check :: string where
  "glyph_check = [CHR 0xE2, CHR 0x9C, CHR 0x85]"

definition text_switching :: "string \<Rightarrow> string" where
  "text_switching target_name =
     glyph_cycle @ '' <b>Switching to '' @ target_name @ ''...</b>'' @ [CHR 0x0A]"

definition text_already_running :: "string \<Rightarrow> string" where
  "text_already_running target_name =
     glyph_info @ '' <b>'' @ target_name @ ''</b> is already running. No action taken.''"

definition text_initializing :: "string \<Rightarrow> string" where
  "text_initializing target_name =
     text_switching target_name @ glyph_hourglass @ '' Initializing...''"

definition text_shutting_down :: "string \<Rightarrow> string \<Rightarrow> string" where
  "text_shutting_down target_name source_name =
     text_switching target_name @ glyph_stop_sign @ '' Shutting down '' @ source_name @ ''...''"

definition text_stuck :: "string \<Rightarrow> string \<Rightarrow> string" where
  "text_stuck target_name source_name =
     text_switching target_name @ glyph_warning @ '' '' @ source_name
       @ '' stuck. Force stopping...''"

definition text_failed :: "string \<Rightarrow> string" where
  "text_failed msg = glyph_cross @ '' <b>Switch Failed</b>'' @ [CHR 0x0A] @ msg"

definition text_starting :: "string \<Rightarrow> string" where
  "text_starting target_name =
     text_switching target_name @ glyph_rocket @ '' Starting '' @ target_name @ ''...''"

definition text_switched :: "string \<Rightarrow> string" where
  "text_switched target_name =
     glyph_check @ '' <b>Switched to '' @ target_name @ ''</b>'' @ [CHR 0x0A]
       @ target_name @ '' is starting.''"

definition text_info :: "string \<Rightarrow> string" where
  "text_info target_name =
     glyph_info @ '' <b>Info</b>'' @ [CHR 0x0A] @ target_name @ '' is already running.''"

text \<open>The dict \<^verbatim>\<open>{"status": ..., "message": ...}\<close> that \<^verbatim>\<open>perform_switch\<close> returns.\<close>

definition switch_result :: "string \<Rightarrow> string \<Rightarrow> (string \<rightharpoonup> pyval)" where
  "switch_result st msg = [''status'' \<mapsto> PyStr st, ''message'' \<mapsto> PyStr msg]"

subsection \<open>The roles\<close>

definition target_id :: "config \<Rightarrow> string \<Rightarrow> vmid" where
  "target_id cfg target_os = (if target_os = ''linux'' then vm_id_linux cfg else vm_id_win cfg)"

definition source_id :: "config \<Rightarrow> string \<Rightarrow> vmid" where
  "source_id cfg target_os = (if target_os = ''linux'' then vm_id_win cfg else vm_id_linux cfg)"

definition source_name :: "string \<Rightarrow> string" where
  "source_name target_os = (if target_os = ''linux'' then ''Windows'' else ''Linux'')"

definition target_name :: "string \<Rightarrow> string" where
  "target_name target_os = (if target_os = ''linux'' then ''Linux'' else ''Windows'')"

subsection \<open>The phases of \<^verbatim>\<open>perform_switch\<close>\<close>

text \<open>
  Step 1, \<^verbatim>\<open># 1. Pre-flight check\<close>. \<open>Some r\<close> is \<^verbatim>\<open>return r\<close>; \<open>None\<close> falls through to
  the rest of the body. \<open>get_vm_status\<close> raises nothing, so the only statement of the
  \<^verbatim>\<open>try\<close> that can reach the handler is the notification.
\<close>

definition preflight ::
  "'w env \<Rightarrow> config \<Rightarrow> string \<Rightarrow> bool \<Rightarrow> 'w state \<Rightarrow> (string \<rightharpoonup> pyval) option \<times> 'w state" where
  "preflight env cfg target_os quiet_on_skip s =
     (case get_vm_status env cfg (target_id cfg target_os) s of
        (st, s1) \<Rightarrow>
          if st = ''running'' then
            (let msg = text_already_running (target_name target_os);
                 s2 = logger INFO (''Skipping switch: '' @ target_name target_os
                                     @ '' is already running.'') s1
             in if \<not> quiet_on_skip then
                  (case invoke (SendMessage (bot_chat_id cfg) msg)
                          (send_message env (bot_chat_id cfg) msg) s2 of
                     (Inr m, s3) \<Rightarrow>
                       (Some (switch_result ''ok''
                                (target_name target_os @ '' is already running'')), s3)
                   | (Inl e, s3) \<Rightarrow>
                       (None,
                        logger WARNING (''Pre-flight status check failed: '' @ exn_str e) s3))
                else (Some (switch_result ''ok''
                              (target_name target_os @ '' is already running'')), s2))
          else (None, s1))"

text \<open>
  The \<^verbatim>\<open>logger.info\<close> that follows the pre-flight check, and
  \<^verbatim>\<open># --- Progress Reporting Setup ---\<close>. The result is \<^verbatim>\<open>progress_msg\<close>: the id of the
  message sent, or \<open>None\<close> when sending raised.
\<close>

definition open_progress ::
  "'w env \<Rightarrow> config \<Rightarrow> string \<Rightarrow> 'w state \<Rightarrow> int option \<times> 'w state" where
  "open_progress env cfg target_os s =
     (case invoke (SendMessage (bot_chat_id cfg) (text_initializing (target_name target_os)))
             (send_message env (bot_chat_id cfg) (text_initializing (target_name target_os)))
             (logger INFO (''Switching to '' @ target_name target_os @ '' (ID: ''
                             @ str_int (target_id cfg target_os) @ '')'') s) of
        (Inr m, s1) \<Rightarrow> (Some m, s1)
      | (Inl e, s1) \<Rightarrow> (None, logger ERROR (''Failed to send init message: '' @ exn_str e) s1))"

definition report :: "'w env \<Rightarrow> config \<Rightarrow> int option \<Rightarrow> string \<Rightarrow> 'w state \<Rightarrow> 'w state" where
  "report env cfg progress_msg text s =
     (case progress_msg of
        None \<Rightarrow> s
      | Some message_id \<Rightarrow>
          (case invoke (EditMessageText text (bot_chat_id cfg) message_id)
                  (edit_message_text env text (bot_chat_id cfg) message_id) s of
             (Inr u, s1) \<Rightarrow> s1
           | (Inl (TelegramBadRequest m), s1) \<Rightarrow> s1
           | (Inl e, s1) \<Rightarrow>
               logger WARNING (''Failed to update progress message: '' @ exn_str e) s1))"

text \<open>
  The escalation, entered when the waiter returned \<^verbatim>\<open>False\<close>. \<open>Some r\<close> is \<^verbatim>\<open>return r\<close>.
\<close>

definition force_stop ::
  "'w env \<Rightarrow> config \<Rightarrow> string \<Rightarrow> int option \<Rightarrow> 'w state \<Rightarrow> (string \<rightharpoonup> pyval) option \<times> 'w state" where
  "force_stop env cfg target_os progress_msg s =
     (let s1 = report env cfg progress_msg
                 (text_stuck (target_name target_os) (source_name target_os)) s
      in case invoke (StopPost (proxmox_node cfg) (source_id cfg target_os))
                (status_stop_post env (proxmox_node cfg) (source_id cfg target_os)) s1 of
           (Inr u, s2) \<Rightarrow> (None, sleep env 3 s2)
         | (Inl e, s2) \<Rightarrow>
             (let msg = ''Critical error stopping '' @ source_name target_os @ '': '' @ exn_str e
              in (Some (switch_result ''error'' msg),
                  report env cfg progress_msg (text_failed msg) (logger ERROR msg s2))))"

text \<open>
  \<^verbatim>\<open># Wait for clean shutdown\<close>: the waiter with its default deadline of 180, then the
  escalation when it returned \<^verbatim>\<open>False\<close>.
\<close>

definition await_stop ::
  "'w env \<Rightarrow> config \<Rightarrow> string \<Rightarrow> int option \<Rightarrow> 'w state \<Rightarrow> (string \<rightharpoonup> pyval) option \<times> 'w state" where
  "await_stop env cfg target_os progress_msg s =
     (case wait_for_shutdown env cfg (source_id cfg target_os) 180 s of
        (stopped, s1) \<Rightarrow>
          if \<not> stopped then force_stop env cfg target_os progress_msg s1
          else (None, s1))"

text \<open>
  The shutdown request with its handler. The handler names \<^verbatim>\<open>ResourceException\<close> only:
  that one is logged, any other exception leaves through it (\<open>Inl\<close>).
\<close>

definition shutdown_request ::
  "'w env \<Rightarrow> config \<Rightarrow> string \<Rightarrow> 'w state \<Rightarrow> (exn + unit) \<times> 'w state" where
  "shutdown_request env cfg target_os s =
     (case invoke (ShutdownPost (proxmox_node cfg) (source_id cfg target_os))
             (status_shutdown_post env (proxmox_node cfg) (source_id cfg target_os)) s of
        (Inr u, s1) \<Rightarrow> (Inr (), s1)
      | (Inl (ResourceException m), s1) \<Rightarrow>
          (Inr (), logger ERROR (''Error triggering shutdown: ''
                                  @ exn_str (ResourceException m)) s1)
      | (Inl e, s1) \<Rightarrow> (Inl e, s1))"

text \<open>
  Step 2, \<^verbatim>\<open># 2. Shutdown Source\<close>. \<open>Inl e\<close>: the exception \<open>e\<close> leaves the phase;
  \<open>Inr (Some r)\<close>: \<^verbatim>\<open>return r\<close>; \<open>Inr None\<close>: on to step 3.
\<close>

definition shutdown_source ::
  "'w env \<Rightarrow> config \<Rightarrow> string \<Rightarrow> int option \<Rightarrow> 'w state
     \<Rightarrow> (exn + (string \<rightharpoonup> pyval) option) \<times> 'w state" where
  "shutdown_source env cfg target_os progress_msg s =
     (case get_vm_status env cfg (source_id cfg target_os)
             (report env cfg progress_msg
                (text_shutting_down (target_name target_os) (source_name target_os)) s) of
        (st, s1) \<Rightarrow>
          if st = ''running'' then
            (case shutdown_request env cfg target_os s1 of
               (Inl e, s2) \<Rightarrow> (Inl e, s2)
             | (Inr u, s2) \<Rightarrow>
                 (case await_stop env cfg target_os progress_msg s2 of
                    (r, s3) \<Rightarrow> (Inr r, s3)))
          else (Inr None, s1))"

text \<open>Step 3, \<^verbatim>\<open># 3. Start Target\<close>, and the final \<^verbatim>\<open>return\<close>.\<close>

definition start_target ::
  "'w env \<Rightarrow> config \<Rightarrow> string \<Rightarrow> int option \<Rightarrow> 'w state \<Rightarrow> (string \<rightharpoonup> pyval) \<times> 'w state" where
  "start_target env cfg target_os progress_msg s =
     (case get_vm_status env cfg (target_id cfg target_os)
             (report env cfg progress_msg (text_starting (target_name target_os)) s) of
        (current_target_status, s1) \<Rightarrow>
          if current_target_status \<noteq> ''running'' then
            (case invoke (StartPost (proxmox_node cfg) (target_id cfg target_os))
                    (status_start_post env (proxmox_node cfg) (target_id cfg target_os)) s1 of
               (Inr u, s2) \<Rightarrow>
                 (switch_result ''ok'' (''Switched to '' @ target_name target_os),
                  report env cfg progress_msg (text_switched (target_name target_os)) s2)
             | (Inl e, s2) \<Rightarrow>
                 (let msg = ''Failed to start '' @ target_name target_os @ '': '' @ exn_str e
                  in (switch_result ''error'' msg,
                      report env cfg progress_msg (text_failed msg) (logger ERROR msg s2))))
          else
            (switch_result ''ok'' (''Switched to '' @ target_name target_os),
             report env cfg progress_msg (text_info (target_name target_os)) s1))"

text \<open>The block under \<^verbatim>\<open>async with self._op_lock\<close>.\<close>

definition switch_body ::
  "'w env \<Rightarrow> config \<Rightarrow> string \<Rightarrow> bool \<Rightarrow> 'w state \<Rightarrow> (exn + (string \<rightharpoonup> pyval)) \<times> 'w state" where
  "switch_body env cfg target_os quiet_on_skip s =
     (case preflight env cfg target_os quiet_on_skip s of
        (Some r, s1) \<Rightarrow> (Inr r, s1)
      | (None, s1) \<Rightarrow>
          (case open_progress env cfg target_os s1 of
             (progress_msg, s2) \<Rightarrow>
               (case shutdown_source env cfg target_os progress_msg s2 of
                  (Inl e, s3) \<Rightarrow> (Inl e, s3)
                | (Inr (Some r), s3) \<Rightarrow> (Inr r, s3)
                | (Inr None, s3) \<Rightarrow>
                    (case start_target env cfg target_os progress_msg s3 of
                       (r, s4) \<Rightarrow> (Inr r, s4)))))"

text \<open>
  \<^verbatim>\<open>perform_switch\<close>. \<open>Inl e\<close>: the call raised \<open>e\<close>; \<open>Inr r\<close>: it returned the dict \<open>r\<close>.
  The guard is taken for the body and released on every way out of it, a raise included.
\<close>

definition perform_switch ::
  "'w env \<Rightarrow> config \<Rightarrow> string \<Rightarrow> bool \<Rightarrow> 'w state \<Rightarrow> (exn + (string \<rightharpoonup> pyval)) \<times> 'w state" where
  "perform_switch env cfg target_os quiet_on_skip s =
     (if is_locked s then
        (Inr (switch_result ''error'' ''System is manually locked.''), s)
      else if op_lock s then
        (Inr (switch_result ''error'' ''An operation is already in progress.''), s)
      else
        (case switch_body env cfg target_os quiet_on_skip (s\<lparr>op_lock := True\<rparr>) of
           (r, s1) \<Rightarrow> (r, s1\<lparr>op_lock := False\<rparr>)))"

section \<open>Observing a run\<close>

text \<open>What \<open>get_vm_status\<close> makes of the outcome of the status query.\<close>

definition status_of_reply :: "exn + (string \<rightharpoonup> string) \<Rightarrow> string" where
  "status_of_reply r =
     (case r of
        Inl e \<Rightarrow> ''error''
      | Inr status_data \<Rightarrow>
          (case status_data ''status'' of Some v \<Rightarrow> v | None \<Rightarrow> ''unknown''))"

text \<open>
  The calls made between two states of one run, the calls that \<open>report\<close> makes (none
  when the progress message was never sent), and the kinds of call.
\<close>

definition calls_since :: "'w state \<Rightarrow> 'w state \<Rightarrow> call list" where
  "calls_since s s' = drop (length (trace s)) (trace s')"

definition report_calls :: "config \<Rightarrow> int option \<Rightarrow> string \<Rightarrow> call list" where
  "report_calls cfg progress_msg text =
     (case progress_msg of
        None \<Rightarrow> []
      | Some message_id \<Rightarrow> [EditMessageText text (bot_chat_id cfg) message_id])"

fun is_status :: "call \<Rightarrow> bool" where
  "is_status (StatusCurrentGet n v) = True"
| "is_status c = False"

fun is_shutdown :: "call \<Rightarrow> bool" where
  "is_shutdown (ShutdownPost n v) = True"
| "is_shutdown c = False"

fun is_stop :: "call \<Rightarrow> bool" where
  "is_stop (StopPost n v) = True"
| "is_stop c = False"

fun is_start :: "call \<Rightarrow> bool" where
  "is_start (StartPost n v) = True"
| "is_start c = False"

fun is_sleep :: "call \<Rightarrow> bool" where
  "is_sleep (Sleep n) = True"
| "is_sleep c = False"

fun is_message :: "call \<Rightarrow> bool" where
  "is_message (SendMessage c x) = True"
| "is_message (EditMessageText x c m) = True"
| "is_message c = False"

section \<open>The event loop: interleaved invocations\<close>

text \<open>
  The process runs one asyncio event loop, and a coroutine gives up control only at an
  \<^verbatim>\<open>await\<close> that suspends. Between the entry of \<^verbatim>\<open>perform_switch\<close> and the first statement
  of the block under \<^verbatim>\<open>async with\<close> nothing suspends: the two checks are plain
  statements, and acquiring a free \<^verbatim>\<open>asyncio.Lock\<close> returns at once. So the entry is one
  atomic step, \<open>enter\<close>; \<open>Inl r\<close> is the early \<^verbatim>\<open>return r\<close>, \<open>Inr s'\<close> the state on entering
  the body.
\<close>

definition enter :: "'w state \<Rightarrow> (string \<rightharpoonup> pyval) + 'w state" where
  "enter s =
     (if is_locked s then Inl (switch_result ''error'' ''System is manually locked.'')
      else if op_lock s then Inl (switch_result ''error'' ''An operation is already in progress.'')
      else Inr (s\<lparr>op_lock := True\<rparr>))"

text \<open>
  An invocation is \<open>Pending\<close> before its entry, \<open>InBody\<close> while it is inside the block
  under \<^verbatim>\<open>async with\<close> (suspended at one of its awaits, or running), and \<open>Returned\<close>
  afterwards. A configuration is the state of the process and the invocations made so far.
  The steps of the loop: an invocation enters; the invocation in the body runs up to its
  next await, which changes neither flag; it leaves the block, which releases the guard;
  a lock or unlock request runs \<open>set_lock\<close>; a new invocation arrives.
\<close>

datatype task = Pending | InBody | Returned

inductive loop_step :: "config \<Rightarrow> 'w state \<times> task list \<Rightarrow> 'w state \<times> task list \<Rightarrow> bool"
  for cfg :: config where
  rejected:
    "i < length ts \<Longrightarrow> ts ! i = Pending \<Longrightarrow> enter s = Inl r
       \<Longrightarrow> loop_step cfg (s, ts) (s, ts[i := Returned])"
| entered:
    "i < length ts \<Longrightarrow> ts ! i = Pending \<Longrightarrow> enter s = Inr s'
       \<Longrightarrow> loop_step cfg (s, ts) (s', ts[i := InBody])"
| resumed:
    "i < length ts \<Longrightarrow> ts ! i = InBody
       \<Longrightarrow> op_lock s' = op_lock s \<Longrightarrow> manual_lock s' = manual_lock s
       \<Longrightarrow> loop_step cfg (s, ts) (s', ts)"
| left:
    "i < length ts \<Longrightarrow> ts ! i = InBody
       \<Longrightarrow> op_lock s' = op_lock s \<Longrightarrow> manual_lock s' = manual_lock s
       \<Longrightarrow> loop_step cfg (s, ts) (s'\<lparr>op_lock := False\<rparr>, ts[i := Returned])"
| lock_request:
    "loop_step cfg (s, ts) (set_lock cfg b s, ts)"
| arrival:
    "loop_step cfg (s, ts) (s, ts @ [Pending])"

definition in_body :: "task list \<Rightarrow> nat" where
  "in_body ts = length (filter (\<lambda>t. t = InBody) ts)"

section \<open>A simulated installation\<close>

text \<open>
  A concrete control plane and bot, to run the program on: each VM has a power state;
  a shutdown request stops the VM unless the guest ignores it; a forced stop stops it;
  a start makes it run; each kind of call can be set to raise.
\<close>

record sim =
  power :: "vmid \<Rightarrow> string"
  guest_ignores_shutdown :: bool
  status_fault :: "vmid \<Rightarrow> exn option"
  shutdown_fault :: "exn option"
  stop_fault :: "exn option"
  start_fault :: "exn option"
  send_fault :: "exn option"
  edit_fault :: "exn option"
  next_message_id :: int

definition sim_env :: "sim env" where
  "sim_env =
     \<lparr>status_current_get = (\<lambda>node vmid w.
        case status_fault w vmid of
          Some e \<Rightarrow> (Inl e, w)
        | None \<Rightarrow> (Inr [''status'' \<mapsto> power w vmid], w)),
      status_shutdown_post = (\<lambda>node vmid w.
        case shutdown_fault w of
          Some e \<Rightarrow> (Inl e, w)
        | None \<Rightarrow> (Inr (), if guest_ignores_shutdown w then w
                            else w\<lparr>power := (power w)(vmid := ''stopped'')\<rparr>)),
      status_stop_post = (\<lambda>node vmid w.
        case stop_fault w of
          Some e \<Rightarrow> (Inl e, w)
        | None \<Rightarrow> (Inr (), w\<lparr>power := (power w)(vmid := ''stopped'')\<rparr>)),
      status_start_post = (\<lambda>node vmid w.
        case start_fault w of
          Some e \<Rightarrow> (Inl e, w)
        | None \<Rightarrow> (Inr (), w\<lparr>power := (power w)(vmid := ''running'')\<rparr>)),
      send_message = (\<lambda>chat text w.
        case send_fault w of
          Some e \<Rightarrow> (Inl e, w)
        | None \<Rightarrow> (Inr (next_message_id w), w\<lparr>next_message_id := next_message_id w + 1\<rparr>)),
      edit_message_text = (\<lambda>text chat message_id w.
        case edit_fault w of
          Some e \<Rightarrow> (Inl e, w)
        | None \<Rightarrow> (Inr (), w)),
      asyncio_sleep = (\<lambda>n w. w)\<rparr>"

definition sim_cfg :: config where
  "sim_cfg =
     \<lparr>proxmox_host = ''pve.local'', proxmox_user = ''root@pam'',
      proxmox_token_name = ''switch'', proxmox_token_value = ''secret'',
      proxmox_node = ''pve'', vm_id_linux = 100, vm_id_win = 101,
      bot_token = ''token'', bot_chat_id = 42, lock_file_path = ''lock.local''\<rparr>"

text \<open>Linux (VM 100) runs, Windows (VM 101) is stopped, nothing raises.\<close>

definition sim_world :: sim where
  "sim_world =
     \<lparr>power = (\<lambda>v. if v = 100 then ''running'' else ''stopped''),
      guest_ignores_shutdown = False,
      status_fault = (\<lambda>v. None), shutdown_fault = None, stop_fault = None,
      start_fault = None, send_fault = None, edit_fault = None, next_message_id = 7\<rparr>"

definition sim_disk :: fs where
  "sim_disk =
     \<lparr>files = Map.empty, read_fault = (\<lambda>p. None), write_fault = (\<lambda>p. None),
      flush_fault = (\<lambda>p. None)\<rparr>"

definition sim_state :: "sim \<Rightarrow> sim state" where
  "sim_state w =
     \<lparr>manual_lock = False, op_lock = False, disk = sim_disk, world = w,
      trace = [], logs = []\<rparr>"

text \<open>
  Two lock files: one of three lines, the word between an empty line and two line ends;
  and a path that can be written but not read.
\<close>

definition padded_text :: string where
  "padded_text = [CHR 0x0A] @ ''LOCKED'' @ [CHR 0x0A, CHR 0x0A]"

definition padded_disk :: fs where
  "padded_disk = sim_disk\<lparr>files := [''lock.local'' \<mapsto> padded_text]\<rparr>"

definition write_only_disk :: fs where
  "write_only_disk = sim_disk\<lparr>read_fault := (\<lambda>p. Some (OtherException ''Permission denied''))\<rparr>"

text \<open>
  A state the event loop reaches: one invocation is inside the body, and a lock request
  has run since.
\<close>

definition locked_in_flight :: "sim state" where
  "locked_in_flight = set_lock sim_cfg True ((sim_state sim_world)\<lparr>op_lock := True\<rparr>)"

text \<open>
  The calls of a waiter that runs \<open>n\<close> rounds without seeing \<open>stopped\<close>: a status query
  and a sleep of one second, \<open>n\<close> times.
\<close>

definition polls :: "string \<Rightarrow> vmid \<Rightarrow> nat \<Rightarrow> call list" where
  "polls node vmid n = concat (replicate n [StatusCurrentGet node vmid, Sleep 1])"

text \<open>
  Worlds for the runs below. In \<open>stuck_world f\<close> the guest ignores the shutdown request,
  and the forced stop raises when \<open>f\<close> says so; in \<open>mute_stop_refused\<close> sending a message
  raises as well. In \<open>source_unreachable\<close> the status query
  for VM 100 raises. In \<open>both_running_notify_fails\<close> both VMs run and sending a message
  raises. In \<open>shutdown_refused\<close> the shutdown request fails in the transport.
\<close>

definition stuck_world :: "exn option \<Rightarrow> sim" where
  "stuck_world f = sim_world\<lparr>guest_ignores_shutdown := True, stop_fault := f\<rparr>"

definition stop_refused :: sim where
  "stop_refused = stuck_world (Some (OtherException ''qmp timeout''))"

definition mute_stop_refused :: sim where
  "mute_stop_refused =
     (stuck_world (Some (OtherException ''qmp timeout'')))
       \<lparr>send_fault := Some (OtherException ''net down'')\<rparr>"

definition source_unreachable :: sim where
  "source_unreachable =
     sim_world\<lparr>status_fault := (\<lambda>v. if v = 100 then Some (OtherException ''timeout'') else None)\<rparr>"

definition both_running_notify_fails :: sim where
  "both_running_notify_fails =
     sim_world\<lparr>power := (\<lambda>v. ''running''), send_fault := Some (OtherException ''net down'')\<rparr>"

definition shutdown_refused :: sim where
  "shutdown_refused = sim_world\<lparr>shutdown_fault := Some (OtherException ''connection refused'')\<rparr>"

section \<open>What each operation leaves alone, and the calls it makes\<close>

lemma logger_fields [simp]:
  "trace (logger lv m s) = trace s" "manual_lock (logger lv m s) = manual_lock s"
  "op_lock (logger lv m s) = op_lock s" "disk (logger lv m s) = disk s"
  "world (logger lv m s) = world s" "logs (logger lv m s) = logs s @ [(lv, m)]"
  by (simp_all add: logger_def)

lemma invoke_fields:
  assumes "invoke c f s = (r, s')"
  shows "trace s' = trace s @ [c]" "manual_lock s' = manual_lock s"
    "op_lock s' = op_lock s" "disk s' = disk s" "logs s' = logs s"
  using assms by (auto simp: invoke_def split: prod.splits)

lemma sleep_fields [simp]:
  "trace (sleep env n s) = trace s @ [Sleep n]" "manual_lock (sleep env n s) = manual_lock s"
  "op_lock (sleep env n s) = op_lock s" "disk (sleep env n s) = disk s"
  "logs (sleep env n s) = logs s"
  by (simp_all add: sleep_def)

lemma get_vm_status_reply:
  "fst (get_vm_status env cfg v s)
     = status_of_reply (fst (status_current_get env (proxmox_node cfg) v (world s)))"
  "world (snd (get_vm_status env cfg v s))
     = snd (status_current_get env (proxmox_node cfg) v (world s))"
  "manual_lock (snd (get_vm_status env cfg v s)) = manual_lock s"
  by (simp_all add: get_vm_status_def invoke_def status_of_reply_def
      split: prod.splits sum.splits option.splits)

lemma report_fields:
  "trace (report env cfg pm x s) = trace s @ report_calls cfg pm x"
  "manual_lock (report env cfg pm x s) = manual_lock s"
  "op_lock (report env cfg pm x s) = op_lock s"
  "disk (report env cfg pm x s) = disk s"
  by (auto simp: report_def report_calls_def
      split: option.splits prod.splits sum.splits exn.splits dest: invoke_fields)

lemma set_lock_fields:
  "manual_lock (set_lock cfg b s) = b" "op_lock (set_lock cfg b s) = op_lock s"
  "trace (set_lock cfg b s) = trace s" "world (set_lock cfg b s) = world s"
  by (simp_all add: set_lock_def save_lock_file_def write_text_def split: option.splits)

lemma invoke_all:
  "invoke c f s = (r, s') \<Longrightarrow>
     trace s' = trace s @ [c] \<and> manual_lock s' = manual_lock s \<and> op_lock s' = op_lock s
     \<and> disk s' = disk s \<and> logs s' = logs s"
  by (auto simp: invoke_def split: prod.splits)

lemma get_vm_status_all:
  "get_vm_status env cfg v s = (st, s') \<Longrightarrow>
     trace s' = trace s @ [StatusCurrentGet (proxmox_node cfg) v]
     \<and> manual_lock s' = manual_lock s \<and> op_lock s' = op_lock s \<and> disk s' = disk s"
  by (auto simp: get_vm_status_def split: prod.splits sum.splits dest!: invoke_all)

lemma list_all_report_calls:
  "(\<And>c. is_message c \<Longrightarrow> P c) \<Longrightarrow> list_all P (report_calls cfg pm x)"
  by (simp add: report_calls_def split: option.splits)

lemma preflight_all:
  "preflight env cfg t q s = (r, s') \<Longrightarrow>
     manual_lock s' = manual_lock s \<and> op_lock s' = op_lock s
     \<and> (\<exists>cs. trace s' = trace s @ cs \<and> list_all (\<lambda>c. is_status c \<or> is_message c) cs)"
  by (auto simp: preflight_def Let_def split: prod.splits if_splits sum.splits
      dest!: get_vm_status_all invoke_all)

lemma open_progress_all:
  "open_progress env cfg t s = (pm, s') \<Longrightarrow>
     manual_lock s' = manual_lock s \<and> op_lock s' = op_lock s
     \<and> trace s' = trace s @ [SendMessage (bot_chat_id cfg) (text_initializing (target_name t))]"
  by (auto simp: open_progress_def split: prod.splits sum.splits dest!: invoke_all)

lemma wait_for_shutdown_all:
  "wait_for_shutdown env cfg v n s = (b, s') \<Longrightarrow>
     manual_lock s' = manual_lock s \<and> op_lock s' = op_lock s
     \<and> (\<exists>cs. trace s' = trace s @ cs \<and> list_all (\<lambda>c. is_status c \<or> is_sleep c) cs)"
proof (induction n arbitrary: s)
  case 0
  then show ?case by simp
next
  case (Suc n)
  obtain st s1 where g: "get_vm_status env cfg v s = (st, s1)"
    by (cases "get_vm_status env cfg v s")
  note f = get_vm_status_all [OF g]
  show ?case
  proof (cases "st = ''stopped''")
    case True
    with Suc.prems g f show ?thesis by auto
  next
    case False
    with Suc.prems g have "wait_for_shutdown env cfg v n (sleep env 1 s1) = (b, s')"
      by simp
    from Suc.IH [OF this] f show ?thesis by auto
  qed
qed

lemma shutdown_request_all:
  "shutdown_request env cfg t s = (r, s') \<Longrightarrow>
     manual_lock s' = manual_lock s \<and> op_lock s' = op_lock s
     \<and> trace s' = trace s @ [ShutdownPost (proxmox_node cfg) (source_id cfg t)]"
  by (auto simp: shutdown_request_def split: prod.splits sum.splits exn.splits
      dest!: invoke_all)

lemma force_stop_all:
  "force_stop env cfg t pm s = (r, s') \<Longrightarrow>
     manual_lock s' = manual_lock s \<and> op_lock s' = op_lock s
     \<and> (\<exists>cs. trace s' = trace s
                 @ report_calls cfg pm (text_stuck (target_name t) (source_name t))
                 @ StopPost (proxmox_node cfg) (source_id cfg t) # cs
             \<and> list_all (\<lambda>c. is_sleep c \<or> is_message c) cs)"
  by (auto simp: force_stop_def Let_def report_fields list_all_report_calls
      split: prod.splits sum.splits dest!: invoke_all)

lemma start_target_all:
  "start_target env cfg t pm s = (r, s') \<Longrightarrow>
     manual_lock s' = manual_lock s \<and> op_lock s' = op_lock s
     \<and> (\<exists>cs. trace s' = trace s @ cs
             \<and> list_all (\<lambda>c. is_status c \<or> is_message c \<or> is_start c) cs)"
  by (auto simp: start_target_def Let_def report_fields list_all_report_calls
        split: prod.splits sum.splits if_splits
      dest!: invoke_all get_vm_status_all)

lemma await_stop_flags:
  assumes "await_stop env cfg t pm s = (r, s')"
  shows "manual_lock s' = manual_lock s \<and> op_lock s' = op_lock s"
proof -
  obtain b s1 where w: "wait_for_shutdown env cfg (source_id cfg t) 180 s = (b, s1)"
    by (cases "wait_for_shutdown env cfg (source_id cfg t) 180 s")
  from wait_for_shutdown_all [OF w]
  have f: "manual_lock s1 = manual_lock s" "op_lock s1 = op_lock s" by simp_all
  show ?thesis
  proof (cases b)
    case True
    with assms w f show ?thesis by (simp add: await_stop_def)
  next
    case False
    with assms w have "force_stop env cfg t pm s1 = (r, s')" by (simp add: await_stop_def)
    from force_stop_all [OF this] f show ?thesis by simp
  qed
qed

lemma shutdown_source_flags:
  assumes "shutdown_source env cfg t pm s = (r, s')"
  shows "manual_lock s' = manual_lock s \<and> op_lock s' = op_lock s"
proof -
  let ?s0 = "report env cfg pm (text_shutting_down (target_name t) (source_name t)) s"
  obtain st s1 where g: "get_vm_status env cfg (source_id cfg t) ?s0 = (st, s1)"
    by (cases "get_vm_status env cfg (source_id cfg t) ?s0")
  from get_vm_status_all [OF g]
  have f1: "manual_lock s1 = manual_lock s" "op_lock s1 = op_lock s"
    by (simp_all add: report_fields)
  show ?thesis
  proof (cases "st = ''running''")
    case False
    with assms g f1 show ?thesis by (simp add: shutdown_source_def)
  next
    case True
    obtain q s2 where rq: "shutdown_request env cfg t s1 = (q, s2)"
      by (cases "shutdown_request env cfg t s1")
    from shutdown_request_all [OF rq] f1
    have f2: "manual_lock s2 = manual_lock s" "op_lock s2 = op_lock s" by simp_all
    show ?thesis
    proof (cases q)
      case (Inl e)
      with assms g True rq f2 show ?thesis by (simp add: shutdown_source_def)
    next
      case (Inr u)
      obtain a s3 where aw: "await_stop env cfg t pm s2 = (a, s3)"
        by (cases "await_stop env cfg t pm s2")
      from await_stop_flags [OF aw] f2 assms g True rq Inr aw show ?thesis
        by (simp add: shutdown_source_def)
    qed
  qed
qed

lemma switch_body_flags:
  assumes "switch_body env cfg t q s = (r, s')"
  shows "manual_lock s' = manual_lock s \<and> op_lock s' = op_lock s"
proof -
  obtain p s1 where pf: "preflight env cfg t q s = (p, s1)"
    by (cases "preflight env cfg t q s")
  from preflight_all [OF pf]
  have f1: "manual_lock s1 = manual_lock s" "op_lock s1 = op_lock s" by simp_all
  show ?thesis
  proof (cases p)
    case (Some x)
    with assms pf f1 show ?thesis by (simp add: switch_body_def)
  next
    case None
    obtain pm s2 where op: "open_progress env cfg t s1 = (pm, s2)"
      by (cases "open_progress env cfg t s1")
    obtain d s3 where sh: "shutdown_source env cfg t pm s2 = (d, s3)"
      by (cases "shutdown_source env cfg t pm s2")
    obtain x s4 where st: "start_target env cfg t pm s3 = (x, s4)"
      by (cases "start_target env cfg t pm s3")
    from open_progress_all [OF op] shutdown_source_flags [OF sh] start_target_all [OF st] f1
    have "manual_lock s3 = manual_lock s" "op_lock s3 = op_lock s"
      "manual_lock s4 = manual_lock s" "op_lock s4 = op_lock s" by simp_all
    with assms pf None op sh st show ?thesis
      by (auto simp: switch_body_def split: sum.splits option.splits)
  qed
qed

lemma perform_switch_flags:
  "manual_lock (snd (perform_switch env cfg t q s)) = manual_lock s"
  "op_lock (snd (perform_switch env cfg t q s)) = op_lock s"
  by (auto simp: perform_switch_def is_locked_def split: prod.splits dest!: switch_body_flags)

lemma polls_Suc: "polls node v (Suc n) = StatusCurrentGet node v # Sleep 1 # polls node v n"
  by (simp add: polls_def)

lemma filter_polls:
  "filter P (polls node v n) = concat (replicate n (filter P [StatusCurrentGet node v, Sleep 1]))"
  by (induction n) (simp_all add: polls_def)

lemma wait_for_shutdown_timeout:
  "wait_for_shutdown env cfg v n s = (False, s') \<Longrightarrow>
     trace s' = trace s @ polls (proxmox_node cfg) v n"
proof (induction n arbitrary: s)
  case 0
  then show ?case by (simp add: polls_def)
next
  case (Suc n)
  obtain st s1 where g: "get_vm_status env cfg v s = (st, s1)"
    by (cases "get_vm_status env cfg v s")
  with Suc.prems have ns: "st \<noteq> ''stopped''"
    and w: "wait_for_shutdown env cfg v n (sleep env 1 s1) = (False, s')"
    by (auto split: if_splits)
  from Suc.IH [OF w] get_vm_status_all [OF g] show ?case
    by (simp add: polls_Suc)
qed

lemma filter_none:
  "list_all Q cs \<Longrightarrow> (\<And>c. Q c \<Longrightarrow> \<not> P c) \<Longrightarrow> filter P cs = []"
  by (induction cs) auto

lemma filter_report_calls:
  "(\<And>c. is_message c \<Longrightarrow> \<not> P c) \<Longrightarrow> filter P (report_calls cfg pm x) = []"
  by (simp add: report_calls_def split: option.splits)

lemma invoke_fst: "fst (invoke c f s) = fst (f (world s))"
  by (simp add: invoke_def split: prod.splits)

lemma wait_for_shutdown_180:
  "wait_for_shutdown env cfg vmid 180 s =
     (case get_vm_status env cfg vmid s of
        (st, s1) \<Rightarrow>
          if st = ''stopped'' then (True, s1)
          else wait_for_shutdown env cfg vmid 179 (sleep env 1 s1))"
proof -
  have "(180::nat) = Suc 179" by simp
  then show ?thesis by (simp only: wait_for_shutdown.simps)
qed

section \<open>Running the simulated installation\<close>

lemmas run_defs = perform_switch_def switch_body_def preflight_def open_progress_def report_def
  shutdown_source_def shutdown_request_def await_stop_def force_stop_def start_target_def
  get_vm_status_def invoke_def sleep_def logger_def is_locked_def target_id_def source_id_def

lemmas sim_defs = sim_env_def sim_cfg_def sim_world_def sim_state_def

lemma sim_env_sel:
  "status_current_get sim_env = (\<lambda>node vmid w.
        case status_fault w vmid of
          Some e \<Rightarrow> (Inl e, w)
        | None \<Rightarrow> (Inr [''status'' \<mapsto> power w vmid], w))"
  "status_shutdown_post sim_env = (\<lambda>node vmid w.
        case shutdown_fault w of
          Some e \<Rightarrow> (Inl e, w)
        | None \<Rightarrow> (Inr (), if guest_ignores_shutdown w then w
                            else w\<lparr>power := (power w)(vmid := ''stopped'')\<rparr>))"
  "status_stop_post sim_env = (\<lambda>node vmid w.
        case stop_fault w of
          Some e \<Rightarrow> (Inl e, w)
        | None \<Rightarrow> (Inr (), w\<lparr>power := (power w)(vmid := ''stopped'')\<rparr>))"
  "status_start_post sim_env = (\<lambda>node vmid w.
        case start_fault w of
          Some e \<Rightarrow> (Inl e, w)
        | None \<Rightarrow> (Inr (), w\<lparr>power := (power w)(vmid := ''running'')\<rparr>))"
  "send_message sim_env = (\<lambda>chat text w.
        case send_fault w of
          Some e \<Rightarrow> (Inl e, w)
        | None \<Rightarrow> (Inr (next_message_id w), w\<lparr>next_message_id := next_message_id w + 1\<rparr>))"
  "edit_message_text sim_env = (\<lambda>text chat message_id w.
        case edit_fault w of
          Some e \<Rightarrow> (Inl e, w)
        | None \<Rightarrow> (Inr (), w))"
  "asyncio_sleep sim_env = (\<lambda>n w. w)"
  by (simp_all add: sim_env_def)

lemma concat_replicate_single: "concat (replicate n [x]) = replicate n x"
  by (induction n) simp_all

lemma str_int_examples: "str_int 100 = ''100''" "str_int 101 = ''101''"
  by code_simp+

lemma sim_get_vm_status:
  "status_fault (world s) v = None \<Longrightarrow>
     get_vm_status sim_env cfg v s
       = (power (world s) v, s\<lparr>trace := trace s @ [StatusCurrentGet (proxmox_node cfg) v]\<rparr>)"
  by (simp add: get_vm_status_def invoke_def sim_env_def)

lemma sim_wait_timeout:
  "status_fault (world s) v = None \<Longrightarrow> power (world s) v \<noteq> ''stopped'' \<Longrightarrow>
     wait_for_shutdown sim_env cfg v n s
       = (False, s\<lparr>trace := trace s @ polls (proxmox_node cfg) v n\<rparr>)"
proof (induction n arbitrary: s)
  case 0
  then show ?case by (simp add: polls_def)
next
  case (Suc n)
  define s2 where "s2 = s\<lparr>trace := trace s @ [StatusCurrentGet (proxmox_node cfg) v, Sleep 1]\<rparr>"
  have sl: "sleep sim_env 1 (s\<lparr>trace := trace s @ [StatusCurrentGet (proxmox_node cfg) v]\<rparr>) = s2"
    by (simp add: sleep_def sim_env_def s2_def)
  have w: "world s2 = world s" by (simp add: s2_def)
  have "wait_for_shutdown sim_env cfg v n s2
      = (False, s2\<lparr>trace := trace s2 @ polls (proxmox_node cfg) v n\<rparr>)"
    using Suc.prems w by (intro Suc.IH) simp_all
  moreover have "wait_for_shutdown sim_env cfg v (Suc n) s = wait_for_shutdown sim_env cfg v n s2"
    using Suc.prems sl by (simp add: sim_get_vm_status del: One_nat_def)
  ultimately show ?case
    by (simp add: s2_def polls_Suc)
qed

lemma sim_report_world: "world (report sim_env cfg pm x s) = world s"
  by (simp add: report_def invoke_def sim_env_def split: option.splits sum.splits exn.splits)

lemma sim_stuck_path:
  fixes f :: "exn option"
  defines "s \<equiv> sim_state (stuck_world f)"
  defines "p \<equiv> preflight sim_env sim_cfg ''windows'' False (s\<lparr>op_lock := True\<rparr>)"
  defines "op \<equiv> open_progress sim_env sim_cfg ''windows'' (snd p)"
  defines "g \<equiv> get_vm_status sim_env sim_cfg (source_id sim_cfg ''windows'')
                 (report sim_env sim_cfg (Some 7)
                    (text_shutting_down (target_name ''windows'') (source_name ''windows''))
                    (snd op))"
  defines "q \<equiv> shutdown_request sim_env sim_cfg ''windows'' (snd g)"
  defines "w \<equiv> wait_for_shutdown sim_env sim_cfg (source_id sim_cfg ''windows'') 180 (snd q)"
  defines "k \<equiv> invoke (StopPost (proxmox_node sim_cfg) (source_id sim_cfg ''windows''))
                 (status_stop_post sim_env (proxmox_node sim_cfg) (source_id sim_cfg ''windows''))
                 (report sim_env sim_cfg (Some 7)
                    (text_stuck (target_name ''windows'') (source_name ''windows'')) (snd w))"
  shows "\<not> is_locked s" and "\<not> op_lock s" and "p = (None, snd p)" and "op = (Some 7, snd op)"
    and "g = (''running'', snd g)" and "q = (Inr (), snd q)" and "w = (False, snd w)"
    and "f = None \<Longrightarrow> k = (Inr (), snd k)" and "f = Some e \<Longrightarrow> k = (Inl e, snd k)"
proof -
  show "\<not> is_locked s" and "\<not> op_lock s"
    by (simp_all add: s_def is_locked_def sim_state_def)
  show "p = (None, snd p)"
    by (simp add: p_def s_def prod_eq_iff run_defs sim_defs stuck_world_def)
  show "op = (Some 7, snd op)"
    by (simp add: op_def p_def s_def prod_eq_iff run_defs sim_defs stuck_world_def)
  show "g = (''running'', snd g)"
    by (simp add: g_def op_def p_def s_def prod_eq_iff run_defs sim_defs stuck_world_def)
  show "q = (Inr (), snd q)"
    by (simp add: q_def g_def op_def p_def s_def prod_eq_iff run_defs sim_defs stuck_world_def)
  have wq: "status_fault (world (snd q)) 100 = None" "power (world (snd q)) 100 \<noteq> ''stopped''"
    "stop_fault (world (snd q)) = f"
    by (simp_all add: q_def g_def op_def p_def s_def run_defs sim_defs stuck_world_def)
  from sim_wait_timeout [OF wq(1,2), of sim_cfg 180]
  have we: "w = (False, (snd q)\<lparr>trace := trace (snd q) @ polls (proxmox_node sim_cfg) 100 180\<rparr>)"
    by (simp add: w_def source_id_def sim_cfg_def)
  then show "w = (False, snd w)" by simp
  from we wq have ww: "stop_fault (world (snd w)) = f" by simp
  have kf: "fst k = (case f of None \<Rightarrow> Inr () | Some e \<Rightarrow> Inl e)"
    by (simp add: k_def invoke_fst sim_report_world)
      (simp add: sim_env_def ww split: option.splits)
  show "f = None \<Longrightarrow> k = (Inr (), snd k)" and "f = Some e \<Longrightarrow> k = (Inl e, snd k)"
    using kf by (simp_all add: prod_eq_iff)
qed

section \<open>Lock store: what is read back\<close>

lemma strip_LOCKED: "strip ''LOCKED'' = ''LOCKED''"
  by code_simp

lemma strip_UNLOCKED: "strip ''UNLOCKED'' = ''UNLOCKED''"
  by code_simp

lemma strip_padded: "strip padded_text = ''LOCKED''"
  by code_simp

lemma padded_text_neq: "padded_text \<noteq> ''LOCKED''" "padded_text \<noteq> ''UNLOCKED''"
  by (simp_all add: padded_text_def)

lemma load_lock_state_iff:
  "fst (load_lock_state cfg s) \<longleftrightarrow>
     (\<exists>t. files (disk s) (lock_file_path cfg) = Some t
          \<and> read_fault (disk s) (lock_file_path cfg) = None \<and> strip t = ''LOCKED'')"
  by (auto simp: load_lock_state_def path_exists_def read_text_def Let_def
      split: option.splits sum.splits)

lemma new_controller_locked:
  "is_locked (new_controller cfg d w) = fst (load_lock_state cfg
      \<lparr>manual_lock = False, op_lock = False, disk = d, world = w, trace = [], logs = []\<rparr>)"
  by (simp add: new_controller_def is_locked_def split: prod.splits)

lemma set_lock_disk:
  "write_fault (disk s) (lock_file_path cfg) = None \<Longrightarrow>
   flush_fault (disk s) (lock_file_path cfg) = None \<Longrightarrow>
   disk (set_lock cfg b s)
     = (disk s)\<lparr>files := (files (disk s))
                  (lock_file_path cfg \<mapsto> (if b then ''LOCKED'' else ''UNLOCKED''))\<rparr>"
  by (simp add: set_lock_def save_lock_file_def write_text_def)

lemma save_ok_iff:
  "fst (save_lock_file cfg b s) = Inr () \<longleftrightarrow>
     write_fault (disk s) (lock_file_path cfg) = None
     \<and> flush_fault (disk s) (lock_file_path cfg) = None"
  by (auto simp: save_lock_file_def write_text_def split: option.splits)

text \<open>
  C7, as the program has it. A fresh process after \<open>set_lock b\<close> finds \<open>b\<close> when the write
  did not raise and the file can be read back. A fresh process is locked exactly when
  the lock file exists, can be read, and its text with the white space at both ends
  removed is \<open>LOCKED\<close>; in every other case (no file, a file that cannot be read, any
  other text) it is unlocked.
\<close>

theorem lock_state_round_trip:
  "(fst (save_lock_file cfg b (s\<lparr>manual_lock := b\<rparr>)) = Inr ()
      \<and> read_fault (disk s) (lock_file_path cfg) = None
      \<longrightarrow> is_locked (new_controller cfg (disk (set_lock cfg b s)) w) = b)
   \<and> (is_locked (new_controller cfg d w') \<longleftrightarrow>
        (\<exists>t. files d (lock_file_path cfg) = Some t
             \<and> read_fault d (lock_file_path cfg) = None \<and> strip t = ''LOCKED''))"
proof (intro conjI impI)
  assume a: "fst (save_lock_file cfg b (s\<lparr>manual_lock := b\<rparr>)) = Inr ()
      \<and> read_fault (disk s) (lock_file_path cfg) = None"
  then have wf: "write_fault (disk s) (lock_file_path cfg) = None"
    and ff: "flush_fault (disk s) (lock_file_path cfg) = None"
    by (simp_all add: save_ok_iff)
  show "is_locked (new_controller cfg (disk (set_lock cfg b s)) w) = b"
    using a by (simp add: new_controller_locked load_lock_state_iff set_lock_disk [OF wf ff]
        strip_LOCKED strip_UNLOCKED)
next
  show "is_locked (new_controller cfg d w') \<longleftrightarrow>
        (\<exists>t. files d (lock_file_path cfg) = Some t
             \<and> read_fault d (lock_file_path cfg) = None \<and> strip t = ''LOCKED'')"
    by (simp add: new_controller_locked load_lock_state_iff)
qed

theorem lock_state_round_trip_witness:
  "is_locked (new_controller sim_cfg (disk (set_lock sim_cfg True (sim_state sim_world))) sim_world)
   \<and> \<not> is_locked (new_controller sim_cfg
          (disk (set_lock sim_cfg False (sim_state sim_world))) sim_world)
   \<and> \<not> is_locked (new_controller sim_cfg sim_disk sim_world)"
  using lock_state_round_trip [of sim_cfg True "sim_state sim_world" sim_world sim_disk sim_world]
    lock_state_round_trip [of sim_cfg False "sim_state sim_world" sim_world sim_disk sim_world]
  by (simp add: save_ok_iff sim_state_def sim_disk_def sim_cfg_def)

text \<open>
  C7 as it is written fails twice. A lock file of three lines (an empty line, \<open>LOCKED\<close>,
  an empty line) is neither the one-line text \<open>LOCKED\<close> nor \<open>UNLOCKED\<close>, and a fresh
  process reads it as locked. And on a path that can be written but not read,
  \<open>set_lock True\<close> writes the file without raising, while a fresh process is unlocked.
\<close>

theorem lock_file_counterexample:
  "files padded_disk (lock_file_path sim_cfg) = Some padded_text
   \<and> padded_text \<noteq> ''LOCKED'' \<and> padded_text \<noteq> ''UNLOCKED''
   \<and> is_locked (new_controller sim_cfg padded_disk sim_world)
   \<and> fst (save_lock_file sim_cfg True
            ((sim_state sim_world)\<lparr>disk := write_only_disk, manual_lock := True\<rparr>)) = Inr ()
   \<and> \<not> is_locked (new_controller sim_cfg
          (disk (set_lock sim_cfg True ((sim_state sim_world)\<lparr>disk := write_only_disk\<rparr>)))
          sim_world)"
  by (simp add: new_controller_locked load_lock_state_iff save_ok_iff padded_disk_def
      write_only_disk_def sim_disk_def sim_cfg_def sim_state_def strip_padded set_lock_disk
      padded_text_neq)

text \<open>
  C8. After \<open>set_lock b\<close> the flag read by \<open>is_locked\<close> is \<open>b\<close>, whether the write of the
  lock file raised or not: the flag is set before the write and no branch sets it back.
  When the write raises \<open>e\<close>, \<open>set_lock\<close> still returns, with one more log record, an
  error naming \<open>e\<close>. No other operation changes the flag (\<open>perform_switch\<close>,
  \<open>get_full_status\<close> and \<open>get_vm_status\<close> leave it as it is), so it stays \<open>b\<close> until the
  next \<open>set_lock\<close>.
\<close>

theorem set_lock_in_memory:
  "is_locked (set_lock cfg b s) = b
   \<and> (case fst (save_lock_file cfg b (s\<lparr>manual_lock := b\<rparr>)) of
         Inr u \<Rightarrow> logs (set_lock cfg b s) = logs s
       | Inl e \<Rightarrow> logs (set_lock cfg b s)
                   = logs s @ [(ERROR, ''Failed to save lock state: '' @ exn_str e)])
   \<and> is_locked (snd (perform_switch env cfg t q s')) = is_locked s'
   \<and> is_locked (snd (get_full_status env cfg s')) = is_locked s'
   \<and> is_locked (snd (get_vm_status env cfg v s')) = is_locked s'"
proof -
  have 1: "is_locked (set_lock cfg b s) = b"
    by (simp add: is_locked_def set_lock_fields)
  have 2: "case fst (save_lock_file cfg b (s\<lparr>manual_lock := b\<rparr>)) of
         Inr u \<Rightarrow> logs (set_lock cfg b s) = logs s
       | Inl e \<Rightarrow> logs (set_lock cfg b s)
                   = logs s @ [(ERROR, ''Failed to save lock state: '' @ exn_str e)]"
    by (simp add: set_lock_def save_lock_file_def write_text_def split: option.splits)
  have 3: "is_locked (snd (perform_switch env cfg t q s')) = is_locked s'"
    by (simp add: is_locked_def perform_switch_flags)
  have 4: "is_locked (snd (get_vm_status env cfg v s'')) = is_locked s''" for v s''
    by (simp add: is_locked_def get_vm_status_reply)
  have 5: "is_locked (snd (get_full_status env cfg s')) = is_locked s'"
    using 4 by (simp add: get_full_status_def case_prod_beta)
  from 1 2 3 4 5 show ?thesis by blast
qed

theorem set_lock_in_memory_witness:
  "is_locked (set_lock sim_cfg True
      ((sim_state sim_world)\<lparr>disk := sim_disk\<lparr>write_fault := (\<lambda>p. Some (OtherException ''Read-only file system''))\<rparr>\<rparr>))
   \<and> logs (set_lock sim_cfg True
      ((sim_state sim_world)\<lparr>disk := sim_disk\<lparr>write_fault := (\<lambda>p. Some (OtherException ''Read-only file system''))\<rparr>\<rparr>))
     = [(ERROR, ''Failed to save lock state: Read-only file system'')]"
  using set_lock_in_memory [of sim_cfg True
      "(sim_state sim_world)\<lparr>disk := sim_disk\<lparr>write_fault := (\<lambda>p. Some (OtherException ''Read-only file system''))\<rparr>\<rparr>"
      sim_env "''linux''" False "sim_state sim_world" 100]
  by (simp add: save_lock_file_def write_text_def sim_state_def)

section \<open>The guard check\<close>

text \<open>
  C1. With the manual lock set, \<open>perform_switch\<close> returns the error dict with the message
  \<open>System is manually locked.\<close> for every target and every \<open>quiet_on_skip\<close>, and the
  state after the call is the state before it: no call to the control plane, no
  message, no log record, nothing written.
\<close>

theorem locked_switch_rejected:
  "is_locked s \<Longrightarrow>
     perform_switch env cfg target_os quiet_on_skip s
       = (Inr (switch_result ''error'' ''System is manually locked.''), s)
     \<and> calls_since s (snd (perform_switch env cfg target_os quiet_on_skip s)) = []"
  by (simp add: perform_switch_def calls_since_def)

theorem locked_switch_rejected_witness:
  "is_locked ((sim_state sim_world)\<lparr>manual_lock := True\<rparr>)
   \<and> perform_switch sim_env sim_cfg ''windows'' False ((sim_state sim_world)\<lparr>manual_lock := True\<rparr>)
       = (Inr (switch_result ''error'' ''System is manually locked.''),
          (sim_state sim_world)\<lparr>manual_lock := True\<rparr>)"
  using locked_switch_rejected [of "(sim_state sim_world)\<lparr>manual_lock := True\<rparr>"
      sim_env sim_cfg "''windows''" False]
  by (simp add: is_locked_def)

lemma perform_switch_enter:
  "perform_switch env cfg t q s =
     (case enter s of
        Inl r \<Rightarrow> (Inr r, s)
      | Inr s' \<Rightarrow> (case switch_body env cfg t q s' of (r, s1) \<Rightarrow> (r, s1\<lparr>op_lock := False\<rparr>)))"
  by (simp add: perform_switch_def enter_def)

lemma in_body_update:
  "i < length ts \<Longrightarrow>
     in_body (ts[i := x]) + (if ts ! i = InBody then 1 else 0)
       = in_body ts + (if x = InBody then 1 else 0)"
proof (induction ts arbitrary: i)
  case Nil
  then show ?case by simp
next
  case (Cons a ts)
  show ?case
  proof (cases i)
    case 0
    then show ?thesis by (simp add: in_body_def)
  next
    case (Suc j)
    with Cons.prems have "j < length ts" by simp
    from Cons.IH [OF this] Suc show ?thesis
      by (auto simp: in_body_def split: if_splits)
  qed
qed

lemma in_body_append [simp]: "in_body (ts @ [Pending]) = in_body ts"
  by (simp add: in_body_def)

lemma loop_step_invariant:
  assumes "loop_step cfg (s, ts) (s', ts')"
    and "in_body ts \<le> 1" and "op_lock s \<longleftrightarrow> in_body ts = 1"
  shows "in_body ts' \<le> 1 \<and> (op_lock s' \<longleftrightarrow> in_body ts' = 1)"
  using assms(1)
proof (cases rule: loop_step.cases)
  case (rejected i r)
  with in_body_update [of i ts Returned] assms(2,3) show ?thesis by simp
next
  case (entered i)
  then have "\<not> op_lock s" "op_lock s'"
    by (auto simp: enter_def split: if_splits)
  with entered in_body_update [of i ts InBody] assms(2,3) show ?thesis by simp
next
  case (resumed i)
  with assms(2,3) show ?thesis by simp
next
  case (left i s'')
  with in_body_update [of i ts Returned] assms(2,3) show ?thesis by simp
next
  case (lock_request b)
  with assms(2,3) show ?thesis by (simp add: set_lock_fields)
next
  case arrival
  with assms(2,3) show ?thesis by simp
qed

lemma loop_invariant:
  assumes "(loop_step cfg)\<^sup>*\<^sup>* c c'"
    and "in_body (snd c) \<le> 1" and "op_lock (fst c) \<longleftrightarrow> in_body (snd c) = 1"
  shows "in_body (snd c') \<le> 1 \<and> (op_lock (fst c') \<longleftrightarrow> in_body (snd c') = 1)"
  using assms
proof (induction rule: rtranclp_induct)
  case base
  then show ?case by simp
next
  case (step y z)
  then have "in_body (snd y) \<le> 1 \<and> (op_lock (fst y) \<longleftrightarrow> in_body (snd y) = 1)" by simp
  with step.hyps(2) loop_step_invariant [of cfg "fst y" "snd y" "fst z" "snd z"]
  show ?case by simp
qed

text \<open>
  C2, as the program has it. An invocation that finds the lock flag clear and the guard
  held returns at once the error dict with the message
  \<open>An operation is already in progress.\<close>, the state unchanged. Whenever the guard is
  held (with the lock flag set too, where the answer is the locked error) the invocation
  makes no call and does not wait; the guard is after every invocation what it was
  before, so a body that took it has released it. And in every run of the event loop
  that starts with the guard free and no invocation in the body, at most one invocation
  is in the body at a time. The steps of that loop are the program's: \<open>perform_switch\<close>
  is \<open>enter\<close>, then the body, then the release of the guard, and the body changes
  neither the guard nor the lock flag.
\<close>

theorem guard_held_rejected:
  "(\<not> is_locked s \<and> op_lock s \<longrightarrow>
      perform_switch env cfg t q s
        = (Inr (switch_result ''error'' ''An operation is already in progress.''), s))
   \<and> (op_lock s \<longrightarrow> calls_since s (snd (perform_switch env cfg t q s)) = [])
   \<and> op_lock (snd (perform_switch env cfg t q s)) = op_lock s
   \<and> ((loop_step cfg')\<^sup>*\<^sup>* (s0, ts0) (s1, ts1) \<and> \<not> op_lock s0 \<and> in_body ts0 = 0
        \<longrightarrow> in_body ts1 \<le> 1)
   \<and> perform_switch env cfg t q s
       = (case enter s of
            Inl r \<Rightarrow> (Inr r, s)
          | Inr s' \<Rightarrow> (case switch_body env cfg t q s' of
                        (r, s2) \<Rightarrow> (r, s2\<lparr>op_lock := False\<rparr>)))
   \<and> op_lock (snd (switch_body env cfg t q s)) = op_lock s
   \<and> manual_lock (snd (switch_body env cfg t q s)) = manual_lock s"
proof (intro conjI impI)
  assume "\<not> is_locked s \<and> op_lock s"
  then show "perform_switch env cfg t q s
        = (Inr (switch_result ''error'' ''An operation is already in progress.''), s)"
    by (simp add: perform_switch_def)
next
  assume "op_lock s"
  then show "calls_since s (snd (perform_switch env cfg t q s)) = []"
    by (simp add: perform_switch_def calls_since_def)
next
  show "op_lock (snd (perform_switch env cfg t q s)) = op_lock s"
    by (rule perform_switch_flags)
next
  assume a: "(loop_step cfg')\<^sup>*\<^sup>* (s0, ts0) (s1, ts1) \<and> \<not> op_lock s0 \<and> in_body ts0 = 0"
  with loop_invariant [of cfg' "(s0, ts0)" "(s1, ts1)"] show "in_body ts1 \<le> 1" by simp
next
  show "perform_switch env cfg t q s
       = (case enter s of
            Inl r \<Rightarrow> (Inr r, s)
          | Inr s' \<Rightarrow> (case switch_body env cfg t q s' of
                        (r, s2) \<Rightarrow> (r, s2\<lparr>op_lock := False\<rparr>)))"
    by (rule perform_switch_enter)
next
  obtain r s' where b: "switch_body env cfg t q s = (r, s')"
    by (cases "switch_body env cfg t q s")
  from switch_body_flags [OF b] b
  show "op_lock (snd (switch_body env cfg t q s)) = op_lock s"
    and "manual_lock (snd (switch_body env cfg t q s)) = manual_lock s"
    by simp_all
qed

theorem guard_held_rejected_witness:
  "perform_switch sim_env sim_cfg ''linux'' False ((sim_state sim_world)\<lparr>op_lock := True\<rparr>)
     = (Inr (switch_result ''error'' ''An operation is already in progress.''),
        (sim_state sim_world)\<lparr>op_lock := True\<rparr>)
   \<and> (loop_step sim_cfg)\<^sup>*\<^sup>* (sim_state sim_world, [Pending, Pending])
        ((sim_state sim_world)\<lparr>op_lock := True\<rparr>, [InBody, Returned])
   \<and> in_body [InBody, Returned] \<le> 1"
proof -
  let ?s = "sim_state sim_world"
  let ?h = "?s\<lparr>op_lock := True\<rparr>"
  have e0: "enter ?s = Inr ?h"
    by (simp add: enter_def is_locked_def sim_state_def)
  have e1: "enter ?h = Inl (switch_result ''error'' ''An operation is already in progress.'')"
    by (simp add: enter_def is_locked_def sim_state_def)
  have "loop_step sim_cfg (?s, [Pending, Pending]) (?h, [Pending, Pending][0 := InBody])"
    by (rule loop_step.entered [OF _ _ e0]) simp_all
  moreover have "loop_step sim_cfg (?h, [InBody, Pending]) (?h, [InBody, Pending][1 := Returned])"
    by (rule loop_step.rejected [OF _ _ e1]) simp_all
  ultimately have r: "(loop_step sim_cfg)\<^sup>*\<^sup>* (?s, [Pending, Pending]) (?h, [InBody, Returned])"
    by simp
  have g: "\<not> is_locked ?h \<and> op_lock ?h" "\<not> op_lock ?s" "in_body [Pending, Pending] = 0"
    by (simp_all add: is_locked_def sim_state_def in_body_def)
  note t = guard_held_rejected [of ?h sim_env sim_cfg "''linux''" False sim_cfg ?s
      "[Pending, Pending]" ?h "[InBody, Returned]"]
  from t [THEN conjunct1] g(1)
  have 1: "perform_switch sim_env sim_cfg ''linux'' False ?h
     = (Inr (switch_result ''error'' ''An operation is already in progress.''), ?h)"
    by (rule mp)
  from t [THEN conjunct2, THEN conjunct2, THEN conjunct2, THEN conjunct1] r g(2,3)
  have 2: "in_body [InBody, Returned] \<le> 1"
    by blast
  from 1 r 2 show ?thesis by (intro conjI)
qed

text \<open>
  C2 as it is written fails: the event loop reaches a state where one invocation is in
  the body, so the guard is held, and the lock flag is set. An invocation made there
  is answered with the locked error, not with the error of the guard.
\<close>

theorem guard_held_counterexample:
  "(loop_step sim_cfg)\<^sup>*\<^sup>* (sim_state sim_world, [Pending, Pending])
      (locked_in_flight, [InBody, Pending])
   \<and> op_lock locked_in_flight
   \<and> fst (perform_switch sim_env sim_cfg ''linux'' False locked_in_flight)
       = Inr (switch_result ''error'' ''System is manually locked.'')
   \<and> switch_result ''error'' ''System is manually locked.''
       \<noteq> switch_result ''error'' ''An operation is already in progress.''"
proof -
  let ?s = "sim_state sim_world"
  let ?h = "?s\<lparr>op_lock := True\<rparr>"
  have e0: "enter ?s = Inr ?h"
    by (simp add: enter_def is_locked_def sim_state_def)
  have "loop_step sim_cfg (?s, [Pending, Pending]) (?h, [Pending, Pending][0 := InBody])"
    by (rule loop_step.entered [OF _ _ e0]) simp_all
  moreover have "loop_step sim_cfg (?h, [InBody, Pending]) (set_lock sim_cfg True ?h, [InBody, Pending])"
    by (rule loop_step.lock_request)
  ultimately have r: "(loop_step sim_cfg)\<^sup>*\<^sup>* (?s, [Pending, Pending])
      (locked_in_flight, [InBody, Pending])"
    by (simp add: locked_in_flight_def)
  have o: "op_lock locked_in_flight" "is_locked locked_in_flight"
    by (simp_all add: locked_in_flight_def set_lock_fields is_locked_def)
  have p: "fst (perform_switch sim_env sim_cfg ''linux'' False locked_in_flight)
       = Inr (switch_result ''error'' ''System is manually locked.'')"
    using o by (simp add: perform_switch_def)
  have n: "switch_result ''error'' ''System is manually locked.''
       \<noteq> switch_result ''error'' ''An operation is already in progress.''"
  proof
    assume "switch_result ''error'' ''System is manually locked.''
       = switch_result ''error'' ''An operation is already in progress.''"
    then have "switch_result ''error'' ''System is manually locked.'' ''message''
       = switch_result ''error'' ''An operation is already in progress.'' ''message''"
      by simp
    then show False by (simp add: switch_result_def)
  qed
  from r o p n show ?thesis by simp
qed

section \<open>Status reader\<close>

text \<open>
  C9, as the program has it. \<open>get_full_status\<close> makes one query for each role, first
  Linux and then Windows, and reports each role by its own query: \<open>error\<close> when that
  query raised, whatever the other did. The third entry, \<open>locked\<close>, is the text
  \<^verbatim>\<open>str(self.is_locked)\<close>, that is \<open>True\<close> or \<open>False\<close> as a string.
\<close>

theorem full_status_reports_each_role:
  "fst (get_full_status env cfg s) =
     [''linux'' \<mapsto> PyStr (status_of_reply
         (fst (status_current_get env (proxmox_node cfg) (vm_id_linux cfg) (world s)))),
      ''windows'' \<mapsto> PyStr (status_of_reply
         (fst (status_current_get env (proxmox_node cfg) (vm_id_win cfg)
            (snd (status_current_get env (proxmox_node cfg) (vm_id_linux cfg) (world s)))))),
      ''locked'' \<mapsto> PyStr (str_bool (is_locked s))]"
  by (simp add: get_full_status_def case_prod_beta get_vm_status_reply is_locked_def)

theorem full_status_reports_each_role_witness:
  "fst (get_full_status sim_env sim_cfg
          (sim_state (sim_world\<lparr>status_fault :=
             (\<lambda>v. if v = 100 then Some (OtherException ''timeout'') else None)\<rparr>)))
     = [''linux'' \<mapsto> PyStr ''error'', ''windows'' \<mapsto> PyStr ''stopped'',
        ''locked'' \<mapsto> PyStr ''False'']"
  using full_status_reports_each_role [of sim_env sim_cfg
      "sim_state (sim_world\<lparr>status_fault :=
         (\<lambda>v. if v = 100 then Some (OtherException ''timeout'') else None)\<rparr>)"]
  by (simp add: sim_env_def sim_cfg_def sim_state_def sim_world_def status_of_reply_def
      str_bool_def is_locked_def)

text \<open>
  C9 as it is written fails: with the lock set, the entry \<open>locked\<close> is the string
  \<open>True\<close>, not the boolean.
\<close>

theorem full_status_locked_counterexample:
  "fst (get_full_status sim_env sim_cfg ((sim_state sim_world)\<lparr>manual_lock := True\<rparr>)) ''locked''
     = Some (PyStr ''True'')
   \<and> fst (get_full_status sim_env sim_cfg ((sim_state sim_world)\<lparr>manual_lock := True\<rparr>)) ''locked''
     \<noteq> Some (PyBool True)"
  by (simp add: get_full_status_def case_prod_beta str_bool_def is_locked_def get_vm_status_reply)

section \<open>Pre-flight check\<close>

text \<open>
  C3 does not hold of the program. The notification is sent inside the \<^verbatim>\<open>try\<close> of the
  pre-flight check, whose handler logs \<open>Pre-flight status check failed\<close> and lets the
  switch go on. Here both VMs run, the target is Linux, \<open>quiet_on_skip\<close> is false and
  sending raises: the pre-flight query sees the target running and logs that the switch
  is skipped, yet the run goes on, asks Windows to shut down (it stops), and returns
  \<open>Switched to Linux\<close>, not the already-running message.
\<close>

theorem notify_failure_run:
  "fst (get_vm_status sim_env sim_cfg (target_id sim_cfg ''linux'')
          (sim_state both_running_notify_fails)) = ''running''
   \<and> fst (perform_switch sim_env sim_cfg ''linux'' False (sim_state both_running_notify_fails))
       = Inr (switch_result ''ok'' ''Switched to Linux'')
   \<and> filter is_shutdown
        (trace (snd (perform_switch sim_env sim_cfg ''linux'' False
                       (sim_state both_running_notify_fails))))
       = [ShutdownPost ''pve'' 101]
   \<and> power (world (snd (perform_switch sim_env sim_cfg ''linux'' False
                          (sim_state both_running_notify_fails)))) 101 = ''stopped''
   \<and> logs (snd (perform_switch sim_env sim_cfg ''linux'' False
                          (sim_state both_running_notify_fails)))
       = [(INFO, ''Skipping switch: Linux is already running.''),
          (WARNING, ''Pre-flight status check failed: net down''),
          (INFO, ''Switching to Linux (ID: 100)''),
          (ERROR, ''Failed to send init message: net down'')]"
  by (simp add: run_defs sim_defs both_running_notify_fails_def wait_for_shutdown_180
      target_name_def str_int_examples)

section \<open>Shutdown phase\<close>

text \<open>
  C4 does not hold of the program. Here Linux runs, the target is Windows, and the
  shutdown request fails with an exception that is not a \<^verbatim>\<open>ResourceException\<close>:
  \<open>perform_switch\<close> raises it to its caller. The shutdown request is the last call:
  the waiter never runs, and the error is not logged.
\<close>

theorem shutdown_transport_error_run:
  "fst (perform_switch sim_env sim_cfg ''windows'' False (sim_state shutdown_refused))
       = Inl (OtherException ''connection refused'')
   \<and> filter (\<lambda>c. \<not> is_message c)
        (trace (snd (perform_switch sim_env sim_cfg ''windows'' False (sim_state shutdown_refused))))
       = [StatusCurrentGet ''pve'' 101, StatusCurrentGet ''pve'' 100, ShutdownPost ''pve'' 100]
   \<and> logs (snd (perform_switch sim_env sim_cfg ''windows'' False (sim_state shutdown_refused)))
       = [(INFO, ''Switching to Windows (ID: 101)'')]"
  by (simp add: run_defs sim_defs shutdown_refused_def target_name_def str_int_examples)

text \<open>
  C10. A run that passes the guard check and falls through the pre-flight check sends
  the opening message, reports \<open>Shutting down\<close> and asks for the state of the source.
  When the answer is anything but \<open>running\<close> (\<open>error\<close> for a query that raised, too), what
  is left of the run is the start phase from that very state, and the whole run holds no
  shutdown request, no forced stop and no sleep.
\<close>

theorem source_not_running_goes_to_start:
  assumes "\<not> is_locked s" and "\<not> op_lock s"
    and pre: "preflight env cfg target_os quiet_on_skip (s\<lparr>op_lock := True\<rparr>) = (None, s1)"
    and opn: "open_progress env cfg target_os s1 = (progress_msg, s2)"
    and src: "get_vm_status env cfg (source_id cfg target_os)
                (report env cfg progress_msg
                   (text_shutting_down (target_name target_os) (source_name target_os)) s2)
              = (st, s3)"
    and nrun: "st \<noteq> ''running''"
  shows "perform_switch env cfg target_os quiet_on_skip s
           = (case start_target env cfg target_os progress_msg s3 of
                (r, s4) \<Rightarrow> (Inr r, s4\<lparr>op_lock := False\<rparr>))
         \<and> filter (\<lambda>c. is_shutdown c \<or> is_stop c \<or> is_sleep c)
             (calls_since s (snd (perform_switch env cfg target_os quiet_on_skip s))) = []"
proof -
  obtain r s4 where st: "start_target env cfg target_os progress_msg s3 = (r, s4)"
    by (cases "start_target env cfg target_os progress_msg s3")
  have ps: "perform_switch env cfg target_os quiet_on_skip s = (Inr r, s4\<lparr>op_lock := False\<rparr>)"
    using assms st by (simp add: perform_switch_def switch_body_def shutdown_source_def)
  from preflight_all [OF pre] obtain cs1 where
    t1: "trace s1 = trace s @ cs1" and a1: "list_all (\<lambda>c. is_status c \<or> is_message c) cs1"
    by auto
  from open_progress_all [OF opn] have
    t2: "trace s2 = trace s1 @ [SendMessage (bot_chat_id cfg) (text_initializing (target_name target_os))]"
    by simp
  from get_vm_status_all [OF src] have
    t3: "trace s3 = trace s2
           @ report_calls cfg progress_msg
               (text_shutting_down (target_name target_os) (source_name target_os))
           @ [StatusCurrentGet (proxmox_node cfg) (source_id cfg target_os)]"
    by (simp add: report_fields)
  from start_target_all [OF st] obtain cs4 where
    t4: "trace s4 = trace s3 @ cs4"
    and a4: "list_all (\<lambda>c. is_status c \<or> is_message c \<or> is_start c) cs4"
    by auto
  let ?P = "\<lambda>c. is_shutdown c \<or> is_stop c \<or> is_sleep c"
  have f1: "filter ?P cs1 = []"
    by (rule filter_none [OF a1]) (case_tac c, auto)
  have f4: "filter ?P cs4 = []"
    by (rule filter_none [OF a4]) (case_tac c, auto)
  have fr: "filter ?P (report_calls cfg progress_msg x) = []" for x
    by (rule filter_report_calls) (case_tac c, auto)
  have "filter ?P (calls_since s (s4\<lparr>op_lock := False\<rparr>)) = []"
    by (simp add: calls_since_def t1 t2 t3 t4 f1 f4 fr)
  with ps st show ?thesis by simp
qed

theorem source_not_running_goes_to_start_witness:
  "fst (get_vm_status sim_env sim_cfg (source_id sim_cfg ''windows'')
          (report sim_env sim_cfg (Some 7)
             (text_shutting_down (target_name ''windows'') (source_name ''windows''))
             (snd (open_progress sim_env sim_cfg ''windows''
                (snd (preflight sim_env sim_cfg ''windows'' False
                   ((sim_state source_unreachable)\<lparr>op_lock := True\<rparr>))))))) = ''error''
   \<and> filter (\<lambda>c. is_shutdown c \<or> is_stop c \<or> is_sleep c)
       (calls_since (sim_state source_unreachable)
          (snd (perform_switch sim_env sim_cfg ''windows'' False (sim_state source_unreachable))))
       = []
   \<and> power (world (snd (perform_switch sim_env sim_cfg ''windows'' False
                          (sim_state source_unreachable)))) 100 = ''running''
   \<and> power (world (snd (perform_switch sim_env sim_cfg ''windows'' False
                          (sim_state source_unreachable)))) 101 = ''running''"
proof -
  let ?s = "sim_state source_unreachable"
  let ?p = "preflight sim_env sim_cfg ''windows'' False (?s\<lparr>op_lock := True\<rparr>)"
  let ?o = "open_progress sim_env sim_cfg ''windows'' (snd ?p)"
  let ?g = "get_vm_status sim_env sim_cfg (source_id sim_cfg ''windows'')
          (report sim_env sim_cfg (Some 7)
             (text_shutting_down (target_name ''windows'') (source_name ''windows'')) (snd ?o))"
  have h1: "\<not> is_locked ?s" and h2: "\<not> op_lock ?s"
    by (simp_all add: is_locked_def sim_state_def)
  have h3: "?p = (None, snd ?p)"
    by (simp add: prod_eq_iff run_defs sim_defs source_unreachable_def)
  have h4: "?o = (Some 7, snd ?o)"
    by (simp add: prod_eq_iff run_defs sim_defs source_unreachable_def)
  have h5: "?g = (''error'', snd ?g)"
    by (simp add: prod_eq_iff run_defs sim_defs source_unreachable_def)
  have h6: "''error'' \<noteq> ''running''" by simp
  have c: "filter (\<lambda>c. is_shutdown c \<or> is_stop c \<or> is_sleep c)
       (calls_since ?s (snd (perform_switch sim_env sim_cfg ''windows'' False ?s))) = []"
    using source_not_running_goes_to_start [OF h1 h2 h3 h4 h5 h6] by (rule conjunct2)
  have "fst ?g = fst (''error'', snd ?g)" using h5 by (rule arg_cong)
  then have d: "fst ?g = ''error''" by (simp only: fst_conv)
  have e: "power (world (snd (perform_switch sim_env sim_cfg ''windows'' False ?s))) 100
             = ''running''"
    "power (world (snd (perform_switch sim_env sim_cfg ''windows'' False ?s))) 101
             = ''running''"
    by (simp_all add: run_defs sim_defs source_unreachable_def)
  from d c e show ?thesis by (intro conjI)
qed

text \<open>
  C5, as the program has it. On a run that reaches the shutdown phase, sees the source
  running, gets its shutdown request past the handler, and whose waiter returns \<open>False\<close>
  after its 180 rounds: when the forced stop returns without raising, the settle sleep of
  3 seconds follows it at once, no start request has been made up to there, what is left
  of the run is the start phase, and the forced stop is the only one of the whole run.
\<close>

theorem forced_stop_once_then_start:
  assumes "\<not> is_locked s" and "\<not> op_lock s"
    and pre: "preflight env cfg target_os quiet_on_skip (s\<lparr>op_lock := True\<rparr>) = (None, s1)"
    and opn: "open_progress env cfg target_os s1 = (progress_msg, s2)"
    and src: "get_vm_status env cfg (source_id cfg target_os)
                (report env cfg progress_msg
                   (text_shutting_down (target_name target_os) (source_name target_os)) s2)
              = (''running'', s3)"
    and req: "shutdown_request env cfg target_os s3 = (Inr (), s4)"
    and tmo: "wait_for_shutdown env cfg (source_id cfg target_os) 180 s4 = (False, s5)"
    and stp: "invoke (StopPost (proxmox_node cfg) (source_id cfg target_os))
                (status_stop_post env (proxmox_node cfg) (source_id cfg target_os))
                (report env cfg progress_msg
                   (text_stuck (target_name target_os) (source_name target_os)) s5)
              = (Inr (), s6)"
  shows "perform_switch env cfg target_os quiet_on_skip s
           = (case start_target env cfg target_os progress_msg (sleep env 3 s6) of
                (r, s7) \<Rightarrow> (Inr r, s7\<lparr>op_lock := False\<rparr>))
         \<and> trace s5 = trace s4 @ polls (proxmox_node cfg) (source_id cfg target_os) 180
         \<and> trace (sleep env 3 s6)
             = trace s5
               @ report_calls cfg progress_msg
                   (text_stuck (target_name target_os) (source_name target_os))
               @ [StopPost (proxmox_node cfg) (source_id cfg target_os), Sleep 3]
         \<and> filter is_start (calls_since s (sleep env 3 s6)) = []
         \<and> filter is_stop
             (calls_since s (snd (perform_switch env cfg target_os quiet_on_skip s)))
             = [StopPost (proxmox_node cfg) (source_id cfg target_os)]"
proof -
  let ?node = "proxmox_node cfg" and ?src = "source_id cfg target_os"
  obtain r s7 where st: "start_target env cfg target_os progress_msg (sleep env 3 s6) = (r, s7)"
    by (cases "start_target env cfg target_os progress_msg (sleep env 3 s6)")
  have fs: "force_stop env cfg target_os progress_msg s5 = (None, sleep env 3 s6)"
    using stp by (simp add: force_stop_def Let_def)
  have sh: "shutdown_source env cfg target_os progress_msg s2 = (Inr None, sleep env 3 s6)"
    using src req tmo fs by (simp add: shutdown_source_def await_stop_def)
  have ps: "perform_switch env cfg target_os quiet_on_skip s = (Inr r, s7\<lparr>op_lock := False\<rparr>)"
    using assms(1,2) pre opn sh st by (simp add: perform_switch_def switch_body_def)
  from preflight_all [OF pre] obtain cs1 where
    t1: "trace s1 = trace s @ cs1" and a1: "list_all (\<lambda>c. is_status c \<or> is_message c) cs1"
    by auto
  from open_progress_all [OF opn] have
    t2: "trace s2 = trace s1 @ [SendMessage (bot_chat_id cfg) (text_initializing (target_name target_os))]"
    by simp
  from get_vm_status_all [OF src] have
    t3: "trace s3 = trace s2
           @ report_calls cfg progress_msg
               (text_shutting_down (target_name target_os) (source_name target_os))
           @ [StatusCurrentGet ?node ?src]"
    by (simp add: report_fields)
  from shutdown_request_all [OF req] have t4: "trace s4 = trace s3 @ [ShutdownPost ?node ?src]"
    by simp
  from wait_for_shutdown_timeout [OF tmo] have t5: "trace s5 = trace s4 @ polls ?node ?src 180" .
  from invoke_all [OF stp] have
    t6: "trace s6 = trace s5
           @ report_calls cfg progress_msg
               (text_stuck (target_name target_os) (source_name target_os))
           @ [StopPost ?node ?src]"
    by (simp add: report_fields)
  from start_target_all [OF st] obtain cs7 where
    t7: "trace s7 = trace (sleep env 3 s6) @ cs7"
    and a7: "list_all (\<lambda>c. is_status c \<or> is_message c \<or> is_start c) cs7"
    by auto
  have fr: "filter P (report_calls cfg progress_msg x) = []"
    if "\<And>c. is_message c \<Longrightarrow> \<not> P c" for P x
    using that by (rule filter_report_calls)
  have m1: "is_message c \<Longrightarrow> \<not> is_start c" and m2: "is_message c \<Longrightarrow> \<not> is_stop c" for c
    by (cases c, auto)+
  have b1: "filter is_start cs1 = []"
    by (rule filter_none [OF a1]) (case_tac c, auto)
  have c1: "filter is_stop cs1 = []"
    by (rule filter_none [OF a1]) (case_tac c, auto)
  have c7: "filter is_stop cs7 = []"
    by (rule filter_none [OF a7]) (case_tac c, auto)
  have p1: "filter is_start (polls ?node ?src 180) = []"
    and p2: "filter is_stop (polls ?node ?src 180) = []"
    by (simp_all add: filter_polls)
  have 3: "trace (sleep env 3 s6)
             = trace s5
               @ report_calls cfg progress_msg
                   (text_stuck (target_name target_os) (source_name target_os))
               @ [StopPost ?node ?src, Sleep 3]"
    by (simp add: t6)
  have 4: "filter is_start (calls_since s (sleep env 3 s6)) = []"
    by (simp add: calls_since_def t1 t2 t3 t4 t5 t6 b1 p1 fr [OF m1])
  have 5: "filter is_stop (calls_since s (s7\<lparr>op_lock := False\<rparr>)) = [StopPost ?node ?src]"
    by (simp add: calls_since_def t1 t2 t3 t4 t5 t6 t7 c1 c7 p2 fr [OF m2])
  from ps st t5 3 4 5 show ?thesis by simp
qed

theorem forced_stop_once_then_start_witness:
  "\<not> is_locked (sim_state (stuck_world None))
   \<and> filter is_stop
       (calls_since (sim_state (stuck_world None))
          (snd (perform_switch sim_env sim_cfg ''windows'' False (sim_state (stuck_world None)))))
     = [StopPost (proxmox_node sim_cfg) (source_id sim_cfg ''windows'')]"
proof -
  note h = sim_stuck_path(1-7) [of None] sim_stuck_path(8) [OF refl]
  note c = forced_stop_once_then_start [OF h]
  from h(1) c show ?thesis by blast
qed

text \<open>
  C5 as it is written fails when the forced stop raises: the waiter has slept its 180
  seconds, one forced stop is requested, and no sleep of 3 seconds follows; the run
  ends with the error and never starts the target.
\<close>

theorem settle_wait_counterexample:
  "fst (perform_switch sim_env sim_cfg ''windows'' False (sim_state stop_refused))
     = Inr (switch_result ''error'' ''Critical error stopping Linux: qmp timeout'')
   \<and> filter is_sleep
        (trace (snd (perform_switch sim_env sim_cfg ''windows'' False (sim_state stop_refused))))
     = replicate 180 (Sleep 1)
   \<and> filter is_stop
        (trace (snd (perform_switch sim_env sim_cfg ''windows'' False (sim_state stop_refused))))
     = [StopPost ''pve'' 100]
   \<and> filter is_start
        (trace (snd (perform_switch sim_env sim_cfg ''windows'' False (sim_state stop_refused))))
     = []"
  by (simp add: run_defs sim_env_sel sim_cfg_def sim_world_def sim_state_def stop_refused_def
      stuck_world_def sim_wait_timeout filter_polls concat_replicate_single source_name_def Let_def)

text \<open>
  C6, as the program has it. On the same run, when the forced stop raises \<open>e\<close>: the dict
  returned is the error with the message \<open>Critical error stopping\<close>, the name of the
  source and \<open>e\<close>. When the progress message was opened, the one call after the forced
  stop is the edit of that message to the cross mark, \<open>Switch Failed\<close> and the message
  of the error; when the opening send had raised, no call at all follows the forced
  stop. In the whole run there is no start request and one forced stop, and no sleep
  follows the waiter.
\<close>

theorem forced_stop_failure_aborts:
  assumes "\<not> is_locked s" and "\<not> op_lock s"
    and pre: "preflight env cfg target_os quiet_on_skip (s\<lparr>op_lock := True\<rparr>) = (None, s1)"
    and opn: "open_progress env cfg target_os s1 = (progress_msg, s2)"
    and src: "get_vm_status env cfg (source_id cfg target_os)
                (report env cfg progress_msg
                   (text_shutting_down (target_name target_os) (source_name target_os)) s2)
              = (''running'', s3)"
    and req: "shutdown_request env cfg target_os s3 = (Inr (), s4)"
    and tmo: "wait_for_shutdown env cfg (source_id cfg target_os) 180 s4 = (False, s5)"
    and stp: "invoke (StopPost (proxmox_node cfg) (source_id cfg target_os))
                (status_stop_post env (proxmox_node cfg) (source_id cfg target_os))
                (report env cfg progress_msg
                   (text_stuck (target_name target_os) (source_name target_os)) s5)
              = (Inl e, s6)"
  shows "perform_switch env cfg target_os quiet_on_skip s
           = (Inr (switch_result ''error''
                     (''Critical error stopping '' @ source_name target_os @ '': '' @ exn_str e)),
              (report env cfg progress_msg
                 (text_failed (''Critical error stopping '' @ source_name target_os
                                 @ '': '' @ exn_str e))
                 (logger ERROR (''Critical error stopping '' @ source_name target_os
                                  @ '': '' @ exn_str e) s6))\<lparr>op_lock := False\<rparr>)
         \<and> trace (snd (perform_switch env cfg target_os quiet_on_skip s))
             = trace s6
               @ (case progress_msg of
                    None \<Rightarrow> []
                  | Some message_id \<Rightarrow>
                      [EditMessageText
                         ([CHR 0xE2, CHR 0x9D, CHR 0x8C] @ '' <b>Switch Failed</b>'' @ [CHR 0x0A]
                            @ ''Critical error stopping '' @ source_name target_os
                            @ '': '' @ exn_str e)
                         (bot_chat_id cfg) message_id])
         \<and> calls_since s6 (snd (perform_switch env cfg target_os quiet_on_skip s))
             = (case progress_msg of
                  None \<Rightarrow> []
                | Some message_id \<Rightarrow>
                    [EditMessageText
                       ([CHR 0xE2, CHR 0x9D, CHR 0x8C] @ '' <b>Switch Failed</b>'' @ [CHR 0x0A]
                          @ ''Critical error stopping '' @ source_name target_os
                          @ '': '' @ exn_str e)
                       (bot_chat_id cfg) message_id])
         \<and> filter is_start
             (calls_since s (snd (perform_switch env cfg target_os quiet_on_skip s))) = []
         \<and> filter is_sleep
             (calls_since s5 (snd (perform_switch env cfg target_os quiet_on_skip s))) = []
         \<and> filter is_stop
             (calls_since s (snd (perform_switch env cfg target_os quiet_on_skip s)))
             = [StopPost (proxmox_node cfg) (source_id cfg target_os)]"
proof -
  let ?node = "proxmox_node cfg" and ?src = "source_id cfg target_os"
  let ?msg = "''Critical error stopping '' @ source_name target_os @ '': '' @ exn_str e"
  let ?fin = "report env cfg progress_msg (text_failed ?msg) (logger ERROR ?msg s6)"
  have fs: "force_stop env cfg target_os progress_msg s5
              = (Some (switch_result ''error'' ?msg), ?fin)"
    using stp by (simp add: force_stop_def Let_def)
  have sh: "shutdown_source env cfg target_os progress_msg s2
              = (Inr (Some (switch_result ''error'' ?msg)), ?fin)"
    using src req tmo fs by (simp add: shutdown_source_def await_stop_def)
  have ps: "perform_switch env cfg target_os quiet_on_skip s
              = (Inr (switch_result ''error'' ?msg), ?fin\<lparr>op_lock := False\<rparr>)"
    using assms(1,2) pre opn sh by (simp add: perform_switch_def switch_body_def)
  from preflight_all [OF pre] obtain cs1 where
    t1: "trace s1 = trace s @ cs1" and a1: "list_all (\<lambda>c. is_status c \<or> is_message c) cs1"
    by auto
  from open_progress_all [OF opn] have
    t2: "trace s2 = trace s1 @ [SendMessage (bot_chat_id cfg) (text_initializing (target_name target_os))]"
    by simp
  from get_vm_status_all [OF src] have
    t3: "trace s3 = trace s2
           @ report_calls cfg progress_msg
               (text_shutting_down (target_name target_os) (source_name target_os))
           @ [StatusCurrentGet ?node ?src]"
    by (simp add: report_fields)
  from shutdown_request_all [OF req] have t4: "trace s4 = trace s3 @ [ShutdownPost ?node ?src]"
    by simp
  from wait_for_shutdown_timeout [OF tmo] have t5: "trace s5 = trace s4 @ polls ?node ?src 180" .
  from invoke_all [OF stp] have
    t6: "trace s6 = trace s5
           @ report_calls cfg progress_msg
               (text_stuck (target_name target_os) (source_name target_os))
           @ [StopPost ?node ?src]"
    by (simp add: report_fields)
  have fr: "filter P (report_calls cfg progress_msg x) = []"
    if "\<And>c. is_message c \<Longrightarrow> \<not> P c" for P x
    using that by (rule filter_report_calls)
  have m1: "is_message c \<Longrightarrow> \<not> is_start c" and m2: "is_message c \<Longrightarrow> \<not> is_sleep c"
    and m3: "is_message c \<Longrightarrow> \<not> is_stop c" for c
    by (cases c, auto)+
  have b1: "filter is_start cs1 = []"
    by (rule filter_none [OF a1]) (case_tac c, auto)
  have c1: "filter is_stop cs1 = []"
    by (rule filter_none [OF a1]) (case_tac c, auto)
  have p1: "filter is_start (polls ?node ?src 180) = []"
    and p2: "filter is_stop (polls ?node ?src 180) = []"
    by (simp_all add: filter_polls)
  let ?edit = "case progress_msg of
                  None \<Rightarrow> []
                | Some message_id \<Rightarrow>
                    [EditMessageText
                       ([CHR 0xE2, CHR 0x9D, CHR 0x8C] @ '' <b>Switch Failed</b>'' @ [CHR 0x0A]
                          @ ''Critical error stopping '' @ source_name target_os
                          @ '': '' @ exn_str e)
                       (bot_chat_id cfg) message_id]"
  have rc: "report_calls cfg progress_msg (text_failed ?msg) = ?edit"
    by (simp add: report_calls_def text_failed_def glyph_cross_def split: option.splits)
  have 1: "trace (?fin\<lparr>op_lock := False\<rparr>) = trace s6 @ ?edit"
    using rc by (simp add: report_fields)
  have 2: "calls_since s6 (?fin\<lparr>op_lock := False\<rparr>) = ?edit"
    using rc by (simp add: calls_since_def report_fields)
  have 3: "filter is_start (calls_since s (?fin\<lparr>op_lock := False\<rparr>)) = []"
    by (simp add: calls_since_def report_fields t1 t2 t3 t4 t5 t6 b1 p1 fr [OF m1])
  have 4: "filter is_sleep (calls_since s5 (?fin\<lparr>op_lock := False\<rparr>)) = []"
    by (simp add: calls_since_def report_fields t6 fr [OF m2])
  have 5: "filter is_stop (calls_since s (?fin\<lparr>op_lock := False\<rparr>)) = [StopPost ?node ?src]"
    by (simp add: calls_since_def report_fields t1 t2 t3 t4 t5 t6 c1 p2 fr [OF m3])
  from ps 1 2 3 4 5 show ?thesis by simp
qed

theorem forced_stop_failure_aborts_witness:
  "\<not> is_locked (sim_state (stuck_world (Some (OtherException ''qmp timeout''))))
   \<and> fst (perform_switch sim_env sim_cfg ''windows'' False
            (sim_state (stuck_world (Some (OtherException ''qmp timeout'')))))
     = Inr (switch_result ''error'' ''Critical error stopping Linux: qmp timeout'')
   \<and> last (trace (snd (perform_switch sim_env sim_cfg ''windows'' False
                          (sim_state (stuck_world (Some (OtherException ''qmp timeout'')))))))
     = EditMessageText
         ([CHR 0xE2, CHR 0x9D, CHR 0x8C] @ '' <b>Switch Failed</b>'' @ [CHR 0x0A]
            @ ''Critical error stopping Linux: qmp timeout'') 42 7
   \<and> filter is_start
       (calls_since (sim_state (stuck_world (Some (OtherException ''qmp timeout''))))
          (snd (perform_switch sim_env sim_cfg ''windows'' False
                  (sim_state (stuck_world (Some (OtherException ''qmp timeout''))))))) = []"
proof -
  let ?s = "sim_state (stuck_world (Some (OtherException ''qmp timeout'')))"
  let ?run = "perform_switch sim_env sim_cfg ''windows'' False ?s"
  note h = sim_stuck_path(1-7) [of "Some (OtherException ''qmp timeout'')"]
    sim_stuck_path(9) [OF refl, of "OtherException ''qmp timeout''"]
  note c = forced_stop_failure_aborts [OF h]
  from c [THEN conjunct1] have "fst ?run = fst (Inr (switch_result ''error''
              (''Critical error stopping '' @ source_name ''windows'' @ '': ''
                 @ exn_str (OtherException ''qmp timeout''))), snd ?run)"
    by (simp only: fst_conv)
  then have 1: "fst ?run
      = Inr (switch_result ''error'' ''Critical error stopping Linux: qmp timeout'')"
    by (simp add: source_name_def)
  from c [THEN conjunct2, THEN conjunct1]
  have 2: "last (trace (snd ?run))
     = EditMessageText
         ([CHR 0xE2, CHR 0x9D, CHR 0x8C] @ '' <b>Switch Failed</b>'' @ [CHR 0x0A]
            @ ''Critical error stopping Linux: qmp timeout'') 42 7"
    by (simp add: source_name_def sim_cfg_def)
  from c [THEN conjunct2, THEN conjunct2, THEN conjunct2, THEN conjunct1]
  have 3: "filter is_start (calls_since ?s (snd ?run)) = []" .
  from h(1) 1 2 3 show ?thesis by (intro conjI)
qed

text \<open>
  C6 as it is written fails when the progress message was never opened. Here the bot
  is down, so the opening send raises; the guest ignores the shutdown and the forced
  stop raises. The run returns the error, but it pushes no failure update: the forced
  stop is its last call, and the only message call of the run is the opening send
  that raised.
\<close>

theorem mute_forced_stop_counterexample:
  "fst (send_message sim_env 42 (text_initializing ''Windows'') mute_stop_refused)
     = Inl (OtherException ''net down'')
   \<and> fst (perform_switch sim_env sim_cfg ''windows'' False (sim_state mute_stop_refused))
     = Inr (switch_result ''error'' ''Critical error stopping Linux: qmp timeout'')
   \<and> filter is_stop
        (trace (snd (perform_switch sim_env sim_cfg ''windows'' False
                       (sim_state mute_stop_refused))))
     = [StopPost ''pve'' 100]
   \<and> last (trace (snd (perform_switch sim_env sim_cfg ''windows'' False
                          (sim_state mute_stop_refused))))
     = StopPost ''pve'' 100
   \<and> filter is_message
        (trace (snd (perform_switch sim_env sim_cfg ''windows'' False
                       (sim_state mute_stop_refused))))
     = [SendMessage 42 (text_initializing ''Windows'')]"
  by (simp add: run_defs sim_env_sel sim_cfg_def sim_world_def sim_state_def
      mute_stop_refused_def stuck_world_def sim_wait_timeout filter_polls source_name_def
      target_name_def Let_def text_initializing_def text_switching_def)

end
